theory Spec2Isabelle
  imports Main "HOL-Library.Word"
begin

section \<open>Data model\<close>

type_synonym byte = "8 word"

text \<open>
  Go errors as values. \<open>HTTPError code message\<close> is an \<open>*echo.HTTPError\<close>,
  \<open>ErrNoRows\<close> is the sentinel \<open>sql.ErrNoRows\<close> (the code compares against it
  by identity), and \<open>OtherError text\<close> is any other error value, such as the
  one built by \<open>errors.New\<close>.
\<close>

datatype error = HTTPError nat string | ErrNoRows | OtherError string

text \<open>\<open>null.String\<close>: a string together with its validity flag. The zero value is
  the empty string, not valid.\<close>

record null_String =
  String :: string
  Valid :: bool

definition null_String_zero :: null_String where
  "null_String_zero = \<lparr>String = '''', Valid = False\<rparr>"

text \<open>\<open>models.ListPermission\<close>: one per-resource grant.\<close>

record ListPermission =
  ID :: int
  Permissions :: "string list"

text \<open>The anonymous struct \<open>User.Role\<close>, with the four fields the code assigns.\<close>

record Role =
  ID :: int
  Name :: string
  Permissions :: "string list"
  Lists :: "ListPermission list"

definition Role_zero :: Role where
  "Role_zero = \<lparr>Role.ID = 0, Name = '''', Permissions = [], Lists = []\<rparr>"

text \<open>
  Modelled from the spec: the declaration of \<open>models.User\<close> is not part of the
  sources at hand. The fields are those that \<open>getUsers\<close> reads and writes. The
  spec's data model lists \<open>HasPassword\<close> and the permission views as computed, not
  stored, so a row as the query scans it (\<open>user_row\<close>) has only the stored columns and
  \<open>scan\<close> leaves the computed fields at Go's zero values. A \<open>map[string]struct{}\<close> is
  a set of strings; a nil or empty map is the empty set (resp. the empty map).
\<close>

record user_row =
  ID :: int
  Username :: string
  Password :: null_String
  PasswordLogin :: bool
  Email :: null_String
  Name :: string
  Type :: string
  Status :: string
  RoleID :: int
  RoleName :: string
  RolePerms :: "string list"
  ListsPermsRaw :: "string option"

record User =
  ID :: int
  Username :: string
  Password :: null_String
  PasswordLogin :: bool
  Email :: null_String
  Name :: string
  Type :: string
  Status :: string
  RoleID :: int
  RoleName :: string
  RolePerms :: "string list"
  ListsPermsRaw :: "string option"
  PermissionsMap :: "string set"
  ListPermissionsMap :: "int \<rightharpoonup> string set"
  Role :: Role
  HasPassword :: bool

definition scan :: "user_row \<Rightarrow> User" where
  "scan r = \<lparr>User.ID = user_row.ID r, Username = user_row.Username r,
     Password = user_row.Password r, PasswordLogin = user_row.PasswordLogin r,
     Email = user_row.Email r, Name = user_row.Name r, Type = user_row.Type r,
     Status = user_row.Status r, RoleID = user_row.RoleID r,
     RoleName = user_row.RoleName r, RolePerms = user_row.RolePerms r,
     ListsPermsRaw = user_row.ListsPermsRaw r,
     PermissionsMap = {}, ListPermissionsMap = Map.empty, Role = Role_zero,
     HasPassword = False\<rparr>"

definition User_zero :: User where
  "User_zero = \<lparr>User.ID = 0, Username = '''', Password = null_String_zero,
     PasswordLogin = False, Email = null_String_zero, Name = '''', Type = '''',
     Status = '''', RoleID = 0, RoleName = '''', RolePerms = [], ListsPermsRaw = None,
     PermissionsMap = {}, ListPermissionsMap = Map.empty, Role = Role_zero,
     HasPassword = False\<rparr>"

section \<open>Effects\<close>

text \<open>
  The handlers act on the world through their collaborators. The world is passed
  explicitly: a monotonic clock in nanoseconds, read by \<open>time.Now\<close> and advanced by
  \<open>time.Sleep\<close> and by the store's password query, and the trace of the calls made
  so far, oldest first.
\<close>

datatype arg = AInt int | AErr error

datatype event =
    Select_GetUsers int string string
  | Get_LoginUser string string
  | Exec_UpdateUserLogin int string
  | Exchange_OIDCToken string string
  | Set_Session int string
  | Set_Cookie string string
  | Printf string "arg list"
  | Sleep nat

record world =
  clock :: nat
  trace :: "event list"

definition emit :: "event \<Rightarrow> world \<Rightarrow> world" where
  "emit e w = w\<lparr>trace := trace w @ [e]\<rparr>"

definition time_Sleep :: "nat \<Rightarrow> world \<Rightarrow> world" where
  "time_Sleep d w = emit (Sleep d) (w\<lparr>clock := clock w + d\<rparr>)"

section \<open>The core: users\<close>

text \<open>
  What \<open>*Core\<close> holds and calls, as parameters: the three prepared queries (each
  a function of its arguments, giving the rows or an error), the time the password
  query takes, the translations, \<open>pqErrMsg\<close>, the constant \<open>models.UserTypeAPI\<close>, and
  the library functions \<open>json.Unmarshal\<close> and \<open>strings.ToLower\<close>. \<open>Unmarshal\<close> gives
  what the call leaves in its target \<open>listPerms\<close> (nil before the call) together with
  the error it returns: a decoder may return an error after it has filled part of
  the target, and the code reads \<open>listPerms\<close> whatever the error was.
\<close>

record Core =
  q_GetUsers :: "int \<Rightarrow> string \<Rightarrow> string \<Rightarrow> error + user_row list"
  q_LoginUser :: "string \<Rightarrow> string \<Rightarrow> error + user_row"
  q_LoginUser_ns :: "string \<Rightarrow> string \<Rightarrow> nat"
  q_UpdateUserLogin :: "int \<Rightarrow> string \<Rightarrow> error option"
  T :: "string \<Rightarrow> string"
  Ts :: "string \<Rightarrow> string list \<Rightarrow> string"
  pqErrMsg :: "error \<Rightarrow> string"
  UserTypeAPI :: string
  Unmarshal :: "string \<Rightarrow> ListPermission list \<times> error option"
  ToLower :: "string \<Rightarrow> string"

text \<open>
  The inner loop of the expansion: \<open>u.ListPermissionsMap[p.ID][perm] = struct{}{}\<close>.
  The entry at \<open>p.ID\<close> has just been made, so the lookup finds it (writing into a
  missing, nil entry would panic in Go; \<open>add_perm\<close> is only used after the entry is set).
\<close>

definition add_perm :: "int \<Rightarrow> string \<Rightarrow> (int \<rightharpoonup> string set) \<Rightarrow> (int \<rightharpoonup> string set)" where
  "add_perm k perm m = (case m k of None \<Rightarrow> m | Some s \<Rightarrow> m(k \<mapsto> insert perm s))"

definition add_grant :: "ListPermission \<Rightarrow> (int \<rightharpoonup> string set) \<Rightarrow> (int \<rightharpoonup> string set)" where
  "add_grant p m =
     fold (add_perm (ListPermission.ID p)) (ListPermission.Permissions p)
       (m(ListPermission.ID p \<mapsto> {}))"

text \<open>The body of the loop of \<open>getUsers\<close> over the fetched users.\<close>

definition expand :: "Core \<Rightarrow> User \<Rightarrow> world \<Rightarrow> User \<times> world" where
  "expand c u0 w =
     (let u1 = (if String (User.Password u0) \<noteq> ''''
                then u0\<lparr>HasPassword := True, User.PasswordLogin := True\<rparr> else u0);
          u2 = (if User.Type u1 = UserTypeAPI c
                then u1\<lparr>User.Email := null_String_zero\<rparr> else u1);
          (listPerms, w') =
            (case User.ListsPermsRaw u2 of
               None \<Rightarrow> ([], w)
             | Some raw \<Rightarrow>
                 (case Unmarshal c raw of
                    (ps, Some err) \<Rightarrow>
                      (ps, emit (Printf ''error unmarshalling list permissions for role %d: %v''
                                   [AInt (User.ID u2), AErr err]) w)
                  | (ps, None) \<Rightarrow> (ps, w)));
          u3 = u2\<lparr>Role := (Role u2)\<lparr>Role.ID := User.RoleID u2, Role.Name := User.RoleName u2,
                                   Role.Permissions := User.RolePerms u2,
                                   Role.Lists := listPerms\<rparr>,
                  User.RoleID := 0\<rparr>;
          u4 = u3\<lparr>PermissionsMap := fold insert (User.RolePerms u3) {}\<rparr>;
          u5 = u4\<lparr>ListPermissionsMap := fold add_grant listPerms Map.empty\<rparr>
      in (u5, w'))"

fun expand_all :: "Core \<Rightarrow> User list \<Rightarrow> world \<Rightarrow> User list \<times> world" where
  "expand_all c [] w = ([], w)"
| "expand_all c (u # us) w =
     (let (u', w') = expand c u w; (us', w'') = expand_all c us w' in (u' # us', w''))"

definition getUsers :: "Core \<Rightarrow> int \<Rightarrow> string \<Rightarrow> string \<Rightarrow> world \<Rightarrow> (error + User list) \<times> world" where
  "getUsers c uid username email w =
     (let w1 = emit (Select_GetUsers uid username email) w
      in case q_GetUsers c uid username email of
           Inl err \<Rightarrow>
             (Inl (HTTPError 500 (Ts c ''globals.messages.errorFetching''
                     [''name'', ''{globals.terms.users}'', ''error'', pqErrMsg c err])), w1)
         | Inr rows \<Rightarrow>
             (let out = map scan rows
              in if length out = 0 then (Inl (OtherError ''user not found''), w1)
                 else (let (out', w2) = expand_all c out w1 in (Inr out', w2))))"

text \<open>
  \<open>GetUser\<close> returns \<open>out[0]\<close>. Indexing an empty slice panics in Go; the panic is
  the value \<open>None\<close>.
\<close>

definition GetUser :: "Core \<Rightarrow> int \<Rightarrow> string \<Rightarrow> string \<Rightarrow> world \<Rightarrow> (error + User) option \<times> world" where
  "GetUser c uid username email w =
     (let (r, w') = getUsers c uid username (ToLower c email) w
      in case r of
           Inl err \<Rightarrow>
             (Some (Inl (HTTPError 500 (Ts c ''globals.messages.errorFetching''
                     [''name'', ''{globals.terms.users}'', ''error'', pqErrMsg c err]))), w')
         | Inr out \<Rightarrow>
             (case out of [] \<Rightarrow> (None, w') | u # _ \<Rightarrow> (Some (Inr u), w')))"

definition GetUsers :: "Core \<Rightarrow> world \<Rightarrow> (error + User list) \<times> world" where
  "GetUsers c w = getUsers c 0 '''' '''' w"

definition UpdateUserLogin :: "Core \<Rightarrow> int \<Rightarrow> string \<Rightarrow> world \<Rightarrow> error option \<times> world" where
  "UpdateUserLogin c uid avatar w =
     (let w1 = emit (Exec_UpdateUserLogin uid avatar) w
      in case q_UpdateUserLogin c uid avatar of
           Some err \<Rightarrow>
             (Some (HTTPError 500 (Ts c ''globals.messages.errorUpdating''
                     [''name'', ''{globals.terms.user}'', ''error'', pqErrMsg c err])), w1)
         | None \<Rightarrow> (None, w1))"

text \<open>
  \<open>LoginUser\<close> returns \<open>out\<close> in every branch: the zero user beside an error. The
  query takes \<open>q_LoginUser_ns\<close> nanoseconds of the clock.
\<close>

definition LoginUser :: "Core \<Rightarrow> string \<Rightarrow> string \<Rightarrow> world \<Rightarrow> (User \<times> error option) \<times> world" where
  "LoginUser c username password w =
     (let w1 = emit (Get_LoginUser username password)
                 (w\<lparr>clock := clock w + q_LoginUser_ns c username password\<rparr>)
      in case q_LoginUser c username password of
           Inl err \<Rightarrow>
             (if err = ErrNoRows
              then ((User_zero, Some (HTTPError 403 (T c ''users.invalidLogin''))), w1)
              else ((User_zero, Some (HTTPError 500 (Ts c ''globals.messages.errorFetching''
                      [''name'', ''{globals.terms.users}'', ''error'', pqErrMsg c err]))), w1))
         | Inr row \<Rightarrow> ((scan row, None), w1))"

section \<open>Utilities\<close>

definition dictionary :: string where
  "dictionary = ''0123456789ABCDEFGHIJKLMNOPQRSTUVWXYZabcdefghijklmnopqrstuvwxyz''"

text \<open>
  \<open>GenerateRandomString\<close>, for \<open>n \<ge> 0\<close> (the callers pass 16 and 32). The byte
  source \<open>rand.Read\<close> is a parameter: given the length of the buffer it fills it, or
  fails. The index \<open>v % byte(len(dictionary))\<close> is computed on bytes.
\<close>

definition GenerateRandomString :: "(nat \<Rightarrow> error + byte list) \<Rightarrow> nat \<Rightarrow> string \<times> error option" where
  "GenerateRandomString rand_Read n =
     (case rand_Read n of
        Inl err \<Rightarrow> ('''', Some err)
      | Inr bytes \<Rightarrow>
          (map (\<lambda>v. dictionary ! unat (v mod (word_of_nat (length dictionary)))) bytes, None))"

section \<open>The login handlers\<close>

record OIDCClaim =
  Email :: string
  Picture :: string

record loginTpl =
  Title :: string
  Description :: string
  NextURI :: string
  Nonce :: string
  PasswordEnabled :: bool
  OIDCProvider :: string
  OIDCProviderLogo :: string
  Error :: string

text \<open>
  What a handler has written when it returns nil: a redirect, or the rendered
  page. A returned error is \<open>Inl\<close>. \<open>c.Redirect\<close> fails only for a status code that
  is no redirect code; the handlers pass 302, so it returns nil.
\<close>

datatype response = Redirect nat string | Rendered nat string loginTpl

text \<open>
  The request as \<open>echo.Context\<close> answers for it: \<open>c.Cookie\<close> gives the cookie's
  value or fails when there is none, \<open>c.FormValue\<close> and \<open>c.QueryParam\<close> give the empty
  string for a missing field, and \<open>c.Render\<close> returns nil when the page is written,
  or an error (no renderer, a failing template, a failing write).
\<close>

record Context =
  Method :: string
  Cookie :: "string \<rightharpoonup> string"
  FormValue :: "string \<Rightarrow> string"
  QueryParam :: "string \<Rightarrow> string"
  Render :: "nat \<Rightarrow> string \<Rightarrow> loginTpl \<Rightarrow> error option"

text \<open>
  What \<open>*App\<close> holds and the handlers call, as parameters: the core, the
  translations, the session manager and the identity client of \<open>app.auth\<close>, the OIDC
  settings, the constants \<open>uriAdmin\<close> and \<open>stdInputMaxLen\<close>, \<open>utils.SanitizeURI\<close>, and the
  library functions \<open>strings.TrimSpace\<close>, \<open>url.Parse\<close> followed by \<open>Hostname\<close>, and
  \<open>rand.Read\<close>.
\<close>

record App =
  core :: Core
  T :: "string \<Rightarrow> string"
  Ts :: "string \<Rightarrow> string list \<Rightarrow> string"
  SetSession :: "User \<Rightarrow> string \<Rightarrow> error option"
  GetOIDCAuthURL :: "string \<Rightarrow> string \<Rightarrow> string"
  ExchangeOIDCToken :: "string \<Rightarrow> string \<Rightarrow> error + (string \<times> OIDCClaim)"
  OIDC_Enabled :: bool
  OIDC_Provider :: string
  SanitizeURI :: "string \<Rightarrow> string"
  uriAdmin :: string
  stdInputMaxLen :: int
  TrimSpace :: "string \<Rightarrow> string"
  url_Hostname :: "string \<Rightarrow> error + string"
  rand_Read :: "nat \<Rightarrow> error + byte list"

text \<open>
  Modelled from the spec: \<open>strHasLen\<close> is not part of the sources at hand. The spec
  gives the constraint as a length within the two bounds, both included
  (username 3..N, password 8..N). Go's \<open>len\<close> of a string counts bytes.
\<close>

definition strHasLen :: "string \<Rightarrow> int \<Rightarrow> int \<Rightarrow> bool" where
  "strHasLen str mn mx = (int (length str) \<ge> mn \<and> int (length str) \<le> mx)"

definition oidcProviders :: "string \<rightharpoonup> bool" where
  "oidcProviders = map_of [(''google.com'', True), (''microsoftonline.com'', True),
     (''auth0.com'', True), (''github.com'', True)]"

text \<open>\<open>strings.Split\<close> at a one-byte separator.\<close>

fun Split :: "string \<Rightarrow> char \<Rightarrow> string list" where
  "Split [] sep = [[]]"
| "Split (x # xs) sep =
     (if x = sep then [] # Split xs sep
      else (case Split xs sep of [] \<Rightarrow> [[x]] | y # ys \<Rightarrow> (x # y) # ys))"

text \<open>The text the login page shows for an error: the message of an
  \<open>*echo.HTTPError\<close>, or else \<open>Error()\<close>.\<close>

fun tpl_Error :: "error \<Rightarrow> string" where
  "tpl_Error (HTTPError code message) = message"
| "tpl_Error ErrNoRows = ''sql: no rows in result set''"
| "tpl_Error (OtherError text) = text"

definition handleOIDCLogin :: "App \<Rightarrow> Context \<Rightarrow> error + response" where
  "handleOIDCLogin app c =
     (case Cookie c ''nonce'' of
        None \<Rightarrow> Inl (HTTPError 401 (App.T app ''users.invalidRequest''))
      | Some nonce \<Rightarrow>
          if nonce = '''' \<or> nonce \<noteq> FormValue c ''nonce''
          then Inl (HTTPError 401 (App.T app ''users.invalidRequest''))
          else (let next0 = SanitizeURI app (FormValue c ''next'');
                    next1 = (if next0 = ''/'' then uriAdmin app else next0)
                in Inr (Redirect 302 (GetOIDCAuthURL app next1 nonce))))"

definition renderLoginPage :: "App \<Rightarrow> Context \<Rightarrow> error option \<Rightarrow> world \<Rightarrow> (error + response) \<times> world" where
  "renderLoginPage app c loginErr w =
     (let next0 = SanitizeURI app (FormValue c ''next'');
          next1 = (if next0 = ''/'' then uriAdmin app else next0);
          (oidcProvider, oidcProviderLogo) =
            (if OIDC_Enabled app
             then (case url_Hostname app (OIDC_Provider app) of
                     Inl err \<Rightarrow> ('''', ''oidc.png'')
                   | Inr hostname \<Rightarrow>
                       (let h = Split hostname CHR ''.'';
                            p = (if length h \<ge> 2
                                 then h ! (length h - 2) @ ''.'' @ h ! (length h - 1)
                                 else hostname)
                        in if p \<in> dom oidcProviders then (p, p @ ''.png'')
                           else (p, ''oidc.png'')))
             else ('''', ''''));
          out = \<lparr>Title = App.T app ''users.login'', Description = '''',
                 NextURI = next1, Nonce = '''', PasswordEnabled = True,
                 OIDCProvider = oidcProvider, OIDCProviderLogo = oidcProviderLogo,
                 Error = (case loginErr of None \<Rightarrow> '''' | Some e \<Rightarrow> tpl_Error e)\<rparr>
      in case GenerateRandomString (rand_Read app) 16 of
           (nonce, Some err) \<Rightarrow>
             (Inl (HTTPError 400 (App.T app ''globals.messages.internalError'')),
              emit (Printf ''error generating OIDC nonce: %v'' [AErr err]) w)
         | (nonce, None) \<Rightarrow>
             (let w1 = emit (Set_Cookie ''nonce'' nonce) w;
                  out1 = out\<lparr>Nonce := nonce\<rparr>
              in case Render c 200 ''admin-login'' out1 of
                   Some err \<Rightarrow> (Inl err, w1)
                 | None \<Rightarrow> (Inr (Rendered 200 ''admin-login'' out1), w1)))"

text \<open>
  \<open>doLogin\<close>. The nonce check at its head is commented out in the source, so the
  model has none. \<open>time.Duration(ms)\<close> is a count of nanoseconds.
\<close>

definition doLogin :: "App \<Rightarrow> Context \<Rightarrow> world \<Rightarrow> error option \<times> world" where
  "doLogin app c w =
     (let username = TrimSpace app (FormValue c ''username'');
          password = TrimSpace app (FormValue c ''password'')
      in if \<not> strHasLen username 3 (stdInputMaxLen app)
         then (Some (HTTPError 400 (App.Ts app ''globals.messages.invalidFields''
                       [''name'', ''username''])), w)
         else if \<not> strHasLen password 8 (stdInputMaxLen app)
         then (Some (HTTPError 400 (App.Ts app ''globals.messages.invalidFields''
                       [''name'', ''password''])), w)
         else (let start = clock w;
                   ((user, err), w1) = LoginUser (core app) username password w
               in case err of
                    Some e \<Rightarrow> (Some e, w1)
                  | None \<Rightarrow>
                      (let ms = (clock w1 - start) div 1000000;
                           w2 = (if ms < 100 then time_Sleep ms w1 else w1);
                           w3 = emit (Set_Session (User.ID user) '''') w2
                       in case SetSession app user '''' of
                            Some e \<Rightarrow> (Some e, w3)
                          | None \<Rightarrow> (None, w3))))"

definition handleLoginPage :: "App \<Rightarrow> Context \<Rightarrow> world \<Rightarrow> (error + response) \<times> world" where
  "handleLoginPage app c w =
     (if Method c = ''POST''
      then (let (loginErr, w1) = doLogin app c w
            in case loginErr of
                 None \<Rightarrow> (Inr (Redirect 302 (SanitizeURI app (FormValue c ''next''))), w1)
               | Some e \<Rightarrow> renderLoginPage app c (Some e) w1)
      else renderLoginPage app c None w)"

text \<open>\<open>handleOIDCFinish\<close>. A panic of \<open>GetUser\<close> is passed on as \<open>None\<close>.\<close>

definition handleOIDCFinish :: "App \<Rightarrow> Context \<Rightarrow> world \<Rightarrow> (error + response) option \<times> world" where
  "handleOIDCFinish app c w =
     (let unauthorized = HTTPError 401 (App.T app ''users.invalidRequest'');
          page = (\<lambda>err w. (let (r, w') = renderLoginPage app c (Some err) w in (Some r, w')))
      in case Cookie c ''nonce'' of
           None \<Rightarrow> page unauthorized w
         | Some nonce \<Rightarrow>
             if nonce = '''' then page unauthorized w
             else (let w1 = emit (Exchange_OIDCToken (QueryParam c ''code'') nonce) w
                   in case ExchangeOIDCToken app (QueryParam c ''code'') nonce of
                        Inl err \<Rightarrow> page err w1
                      | Inr (oidcToken, claims) \<Rightarrow>
                          (case GetUser (core app) 0 '''' (OIDCClaim.Email claims) w1 of
                             (None, w2) \<Rightarrow> (None, w2)
                           | (Some (Inl err), w2) \<Rightarrow> page err w2
                           | (Some (Inr user), w2) \<Rightarrow>
                               (case UpdateUserLogin (core app) (User.ID user) (Picture claims) w2 of
                                  (Some err, w3) \<Rightarrow> page err w3
                                | (None, w3) \<Rightarrow>
                                    (let w4 = emit (Set_Session (User.ID user) oidcToken) w3
                                     in case SetSession app user oidcToken of
                                          Some err \<Rightarrow> page err w4
                                        | None \<Rightarrow>
                                            (Some (Inr (Redirect 302
                                               (SanitizeURI app (QueryParam c ''state'')))), w4))))))"

section \<open>A concrete installation\<close>

text \<open>
  One store, one application and a few requests, on which the theorems below are
  run. The library functions are given for ASCII input.
\<close>

definition isSpace :: "char \<Rightarrow> bool" where
  "isSpace ch = (ch \<in> set [CHR 0x09, CHR 0x0A, CHR 0x0B, CHR 0x0C, CHR 0x0D, CHR '' ''])"

definition ascii_TrimSpace :: "string \<Rightarrow> string" where
  "ascii_TrimSpace s = rev (dropWhile isSpace (rev (dropWhile isSpace s)))"

definition ascii_ToLower :: "string \<Rightarrow> string" where
  "ascii_ToLower s =
     map (\<lambda>ch. case map_of (zip ''ABCDEFGHIJKLMNOPQRSTUVWXYZ'' ''abcdefghijklmnopqrstuvwxyz'') ch of
                  None \<Rightarrow> ch | Some l \<Rightarrow> l) s"

definition grants_json :: string where
  \<open>grants_json = ''[{"id":5,"permissions":["list:view"]}]''\<close>

definition row_ada :: user_row where
  "row_ada = \<lparr>user_row.ID = 1, Username = ''ada'',
     Password = \<lparr>String = ''$2a$10$hash'', Valid = True\<rparr>, PasswordLogin = False,
     Email = \<lparr>String = ''ada@example.com'', Valid = True\<rparr>, Name = ''Ada'',
     Type = ''user'', Status = ''enabled'', RoleID = 2, RoleName = ''Manager'',
     RolePerms = [''users:manage''], ListsPermsRaw = Some grants_json\<rparr>"

definition row_bot :: user_row where
  "row_bot = \<lparr>user_row.ID = 2, Username = ''bot'',
     Password = \<lparr>String = ''token'', Valid = True\<rparr>, PasswordLogin = False,
     Email = \<lparr>String = ''bot@api'', Valid = True\<rparr>, Name = ''Bot'',
     Type = ''api'', Status = ''enabled'', RoleID = 3, RoleName = ''Robot'',
     RolePerms = [], ListsPermsRaw = Some ''[{''\<rparr>"

definition row_eve :: user_row where
  "row_eve = \<lparr>user_row.ID = 3, Username = ''eve'',
     Password = \<lparr>String = '''', Valid = False\<rparr>, PasswordLogin = False,
     Email = \<lparr>String = ''eve@example.com'', Valid = True\<rparr>, Name = ''Eve'',
     Type = ''user'', Status = ''enabled'', RoleID = 2, RoleName = ''Manager'',
     RolePerms = [''users:manage''], ListsPermsRaw = None\<rparr>"

text \<open>
  Two more payloads. In the first the second grant's \<open>id\<close> is a string: it is valid
  JSON, and \<open>encoding/json\<close> decodes what fits (the first grant, and the second with
  its \<open>id\<close> left at zero) and returns a type error. In the second two grants name the
  same resource.
\<close>

definition mismatch_json :: string where
  \<open>mismatch_json = ''[{"id":5,"permissions":["list:view"]},{"id":"x","permissions":["list:manage"]}]''\<close>

definition repeated_json :: string where
  \<open>repeated_json = ''[{"id":5,"permissions":["list:view"]},{"id":5,"permissions":["list:manage"]}]''\<close>

definition row_kim :: user_row where
  "row_kim = \<lparr>user_row.ID = 4, Username = ''kim'',
     Password = \<lparr>String = '''', Valid = False\<rparr>, PasswordLogin = False,
     Email = \<lparr>String = ''kim@example.com'', Valid = True\<rparr>, Name = ''Kim'',
     Type = ''user'', Status = ''enabled'', RoleID = 2, RoleName = ''Manager'',
     RolePerms = [''users:manage''], ListsPermsRaw = Some mismatch_json\<rparr>"

definition row_lee :: user_row where
  "row_lee = \<lparr>user_row.ID = 5, Username = ''lee'',
     Password = \<lparr>String = '''', Valid = False\<rparr>, PasswordLogin = False,
     Email = \<lparr>String = ''lee@example.com'', Valid = True\<rparr>, Name = ''Lee'',
     Type = ''user'', Status = ''enabled'', RoleID = 2, RoleName = ''Manager'',
     RolePerms = [''users:manage''], ListsPermsRaw = Some repeated_json\<rparr>"

definition core0 :: Core where
  "core0 = \<lparr>
     q_GetUsers = (\<lambda>uid username email.
        if uid = 0 \<and> username = '''' \<and> email = '''' then Inr [row_ada, row_bot, row_eve]
        else if email = ''ada@example.com'' then Inr [row_ada]
        else if email = ''down@example.com'' then Inl (OtherError ''connection refused'')
        else if uid = 4 then Inr [row_kim]
        else if uid = 5 then Inr [row_lee]
        else Inr []),
     q_LoginUser = (\<lambda>username password.
        if username = ''ada'' \<and> password = ''correct horse'' then Inr row_ada
        else Inl ErrNoRows),
     q_LoginUser_ns = (\<lambda>username password. 5000000),
     q_UpdateUserLogin = (\<lambda>uid avatar. None),
     T = (\<lambda>key. key),
     Ts = (\<lambda>key params. key),
     pqErrMsg = tpl_Error,
     UserTypeAPI = ''api'',
     Unmarshal = (\<lambda>raw.
        if raw = grants_json
        then ([\<lparr>ListPermission.ID = 5, Permissions = [''list:view'']\<rparr>], None)
        else if raw = mismatch_json
        then ([\<lparr>ListPermission.ID = 5, Permissions = [''list:view'']\<rparr>,
               \<lparr>ListPermission.ID = 0, Permissions = [''list:manage'']\<rparr>],
              Some (OtherError ''json: cannot unmarshal string into Go struct field ListPermission.id of type int''))
        else if raw = repeated_json
        then ([\<lparr>ListPermission.ID = 5, Permissions = [''list:view'']\<rparr>,
               \<lparr>ListPermission.ID = 5, Permissions = [''list:manage'']\<rparr>], None)
        else ([], Some (OtherError ''unexpected end of JSON input''))),
     ToLower = ascii_ToLower\<rparr>"

definition app0 :: App where
  "app0 = \<lparr>
     core = core0,
     T = (\<lambda>key. key),
     Ts = (\<lambda>key params. key),
     SetSession = (\<lambda>user token. None),
     GetOIDCAuthURL = (\<lambda>next nonce. ''https://idp.example.com/auth?state='' @ nonce @ ''&next='' @ next),
     ExchangeOIDCToken = (\<lambda>code nonce.
        if code = ''good'' then Inr (''id-token'', \<lparr>Email = ''Ada@Example.com'', Picture = ''ada.png''\<rparr>)
        else Inl (HTTPError 401 ''exchange failed'')),
     OIDC_Enabled = True,
     OIDC_Provider = ''https://accounts.google.com'',
     SanitizeURI = (\<lambda>uri. case uri of [] \<Rightarrow> ''/'' | ch # _ \<Rightarrow> if ch = CHR ''/'' then uri else ''/''),
     uriAdmin = ''/admin'',
     stdInputMaxLen = 2000,
     TrimSpace = ascii_TrimSpace,
     url_Hostname = (\<lambda>raw. if raw = ''https://accounts.google.com''
        then Inr ''accounts.google.com'' else Inl (OtherError ''parse error'')),
     rand_Read = (\<lambda>n. Inr (replicate n 0xFF))\<rparr>"

definition world0 :: world where
  "world0 = \<lparr>clock = 0, trace = []\<rparr>"

text \<open>A form post: the cookie's nonce, then the fields of the form.\<close>

definition post :: "string option \<Rightarrow> (string \<times> string) list \<Rightarrow> Context" where
  "post nonce form = \<lparr>Method = ''POST'', Cookie = map_of (case nonce of None \<Rightarrow> [] | Some v \<Rightarrow> [(''nonce'', v)]),
     FormValue = (\<lambda>name. case map_of form name of None \<Rightarrow> '''' | Some v \<Rightarrow> v),
     QueryParam = (\<lambda>name. ''''),
     Render = (\<lambda>code name data. None)\<rparr>"

text \<open>The identity provider's callback: the cookie's nonce, then the query.\<close>

definition callback :: "string option \<Rightarrow> (string \<times> string) list \<Rightarrow> Context" where
  "callback nonce query = \<lparr>Method = ''GET'', Cookie = map_of (case nonce of None \<Rightarrow> [] | Some v \<Rightarrow> [(''nonce'', v)]),
     FormValue = (\<lambda>name. case map_of query name of None \<Rightarrow> '''' | Some v \<Rightarrow> v),
     QueryParam = (\<lambda>name. case map_of query name of None \<Rightarrow> '''' | Some v \<Rightarrow> v),
     Render = (\<lambda>code name data. None)\<rparr>"

text \<open>The same application with a byte source that fails.\<close>

definition app_no_entropy :: App where
  "app_no_entropy = app0\<lparr>rand_Read := (\<lambda>n. Inl (OtherError ''no entropy''))\<rparr>"

text \<open>The same request on a connection where writing the page fails.\<close>

definition unrendered :: "Context \<Rightarrow> Context" where
  "unrendered c = c\<lparr>Render := (\<lambda>code name data. Some (OtherError ''write: broken pipe''))\<rparr>"

section \<open>The random string\<close>

lemma length_dictionary: "length dictionary = 62"
  by (simp add: dictionary_def)

lemma dictionary_index:
  "dictionary ! unat ((v::byte) mod word_of_nat (length dictionary)) \<in> set dictionary"
proof -
  have "unat (v mod 62) < 62"
    by (simp add: unat_mod_distrib)
  then show ?thesis
    by (simp add: length_dictionary)
qed

text \<open>
  Claim C9. When the byte source fills the buffer of \<open>n\<close> bytes, the result is a
  string of length exactly \<open>n\<close> and no error, and each of its characters is one of the
  62 of the dictionary: the ten digits, then the upper-case, then the lower-case
  letters. When the byte source fails, the result is the empty string and that error.
\<close>

theorem GenerateRandomString_alphanumeric:
  "(rd n = Inr bytes \<and> length bytes = n \<longrightarrow>
      (\<exists>s. GenerateRandomString rd n = (s, None) \<and> length s = n \<and> set s \<subseteq> set dictionary))
   \<and> (rd n = Inl err \<longrightarrow> GenerateRandomString rd n = ('''', Some err))
   \<and> length dictionary = 62 \<and> distinct dictionary
   \<and> dictionary = ''0123456789'' @ ''ABCDEFGHIJKLMNOPQRSTUVWXYZ'' @ ''abcdefghijklmnopqrstuvwxyz''"
proof (intro conjI impI)
  assume a: "rd n = Inr bytes \<and> length bytes = n"
  show "\<exists>s. GenerateRandomString rd n = (s, None) \<and> length s = n \<and> set s \<subseteq> set dictionary"
    using a dictionary_index by (auto simp: GenerateRandomString_def)
next
  assume "rd n = Inl err"
  then show "GenerateRandomString rd n = ('''', Some err)"
    by (simp add: GenerateRandomString_def)
next
  show "length dictionary = 62" by (rule length_dictionary)
next
  show "distinct dictionary" by (simp add: dictionary_def)
next
  show "dictionary = ''0123456789'' @ ''ABCDEFGHIJKLMNOPQRSTUVWXYZ'' @ ''abcdefghijklmnopqrstuvwxyz''"
    by (simp add: dictionary_def)
qed

theorem GenerateRandomString_alphanumeric_witness:
  "GenerateRandomString (\<lambda>n. Inr (replicate n (0xFF::byte))) 3 = (''777'', None)
   \<and> GenerateRandomString (\<lambda>n. Inl (OtherError ''no entropy'')) 3 = ('''', Some (OtherError ''no entropy''))"
proof -
  let ?rd = "\<lambda>n::nat. (Inr (replicate n (0xFF::byte)) :: error + byte list)"
  have h: "?rd 3 = Inr (replicate 3 0xFF) \<and> length (replicate 3 (0xFF::byte)) = 3" by simp
  from GenerateRandomString_alphanumeric [of ?rd 3 "replicate 3 0xFF" undefined]
  have "\<exists>s. GenerateRandomString ?rd 3 = (s, None) \<and> length s = 3 \<and> set s \<subseteq> set dictionary"
    using h by blast
  moreover have "GenerateRandomString ?rd 3 = (''777'', None)"
    by (simp add: GenerateRandomString_def dictionary_def numeral_3_eq_3 unat_mod_distrib)
  moreover have "GenerateRandomString (\<lambda>n. Inl (OtherError ''no entropy'')) 3 = ('''', Some (OtherError ''no entropy''))"
    using GenerateRandomString_alphanumeric [of "\<lambda>n. Inl (OtherError ''no entropy'')" 3 "[]" "OtherError ''no entropy''"]
    by simp
  ultimately show ?thesis by simp
qed

section \<open>Fetching users\<close>

lemma fold_add_perm:
  "m k = Some s \<Longrightarrow> fold (add_perm k) perms m = m(k \<mapsto> s \<union> set perms)"
proof (induction perms arbitrary: m s)
  case Nil
  then show ?case by (simp add: fun_upd_idem)
next
  case (Cons perm perms)
  have step: "add_perm k perm m = m(k \<mapsto> insert perm s)"
    using Cons.prems by (simp add: add_perm_def)
  have "fold (add_perm k) perms (m(k \<mapsto> insert perm s)) =
        (m(k \<mapsto> insert perm s))(k \<mapsto> insert perm s \<union> set perms)"
    by (rule Cons.IH) simp
  then show ?case by (simp add: step)
qed

lemma find_append_case:
  "find P (xs @ ys) = (case find P xs of None \<Rightarrow> find P ys | Some x \<Rightarrow> Some x)"
  by (induction xs) simp_all

lemma add_grant_eq:
  "add_grant p m = m(ListPermission.ID p \<mapsto> set (ListPermission.Permissions p))"
  unfolding add_grant_def
  by (subst fold_add_perm [where s = "{}"]) simp_all

lemma fold_add_grant:
  "fold add_grant gs m k =
     (case find (\<lambda>g. ListPermission.ID g = k) (rev gs) of
        None \<Rightarrow> m k
      | Some g \<Rightarrow> Some (set (ListPermission.Permissions g)))"
proof (induction gs arbitrary: m)
  case Nil
  then show ?case by simp
next
  case (Cons g gs)
  have "fold add_grant (g # gs) m k = fold add_grant gs (add_grant g m) k"
    by simp
  also have "\<dots> = (case find (\<lambda>g. ListPermission.ID g = k) (rev gs) of
                      None \<Rightarrow> add_grant g m k
                    | Some g \<Rightarrow> Some (set (ListPermission.Permissions g)))"
    by (rule Cons.IH)
  also have "add_grant g m k =
      (if ListPermission.ID g = k then Some (set (ListPermission.Permissions g)) else m k)"
    by (simp only: add_grant_eq) simp
  finally show ?case
    by (simp add: find_append_case split: option.splits)
qed

lemma fold_insert_set: "fold insert xs A = set xs \<union> A"
  by (induction xs arbitrary: A) auto

lemma expand_user:
  "fst (expand c (scan r) w) =
     \<lparr>User.ID = user_row.ID r, Username = user_row.Username r,
      Password = user_row.Password r,
      PasswordLogin = (String (user_row.Password r) \<noteq> '''' \<or> user_row.PasswordLogin r),
      Email = (if user_row.Type r = UserTypeAPI c then null_String_zero else user_row.Email r),
      Name = user_row.Name r, Type = user_row.Type r,
      Status = user_row.Status r, RoleID = 0,
      RoleName = user_row.RoleName r, RolePerms = user_row.RolePerms r,
      ListsPermsRaw = user_row.ListsPermsRaw r,
      PermissionsMap = set (user_row.RolePerms r),
      ListPermissionsMap =
        fold add_grant
          (case user_row.ListsPermsRaw r of None \<Rightarrow> []
           | Some raw \<Rightarrow> fst (Unmarshal c raw)) Map.empty,
      Role = \<lparr>Role.ID = user_row.RoleID r, Name = user_row.RoleName r,
              Permissions = user_row.RolePerms r,
              Lists = (case user_row.ListsPermsRaw r of None \<Rightarrow> []
                       | Some raw \<Rightarrow> fst (Unmarshal c raw))\<rparr>,
      HasPassword = (String (user_row.Password r) \<noteq> '''')\<rparr>"
  by (simp add: expand_def scan_def Let_def Role_zero_def fold_insert_set
           split: option.splits prod.splits)

lemma expand_user_world: "fst (expand c (scan r) w) = fst (expand c (scan r) w')"
  by (simp only: expand_user)

lemma expand_world:
  "snd (expand c u w) =
     (case User.ListsPermsRaw u of
        None \<Rightarrow> w
      | Some raw \<Rightarrow>
          (case snd (Unmarshal c raw) of
             Some err \<Rightarrow> emit (Printf ''error unmarshalling list permissions for role %d: %v''
                                 [AInt (User.ID u), AErr err]) w
           | None \<Rightarrow> w))"
  by (simp add: expand_def Let_def split: option.splits prod.splits)

lemma expand_trace_mono: "set (trace w) \<subseteq> set (trace (snd (expand c u w)))"
  by (auto simp: expand_world emit_def split: option.splits)

lemma expand_all_length: "length (fst (expand_all c us w)) = length us"
  by (induction us arbitrary: w) (simp_all add: Let_def case_prod_beta)

lemma expand_all_trace_mono: "set (trace w) \<subseteq> set (trace (snd (expand_all c us w)))"
proof (induction us arbitrary: w)
  case Nil
  then show ?case by simp
next
  case (Cons u us)
  have "set (trace w) \<subseteq> set (trace (snd (expand c u w)))"
    by (rule expand_trace_mono)
  also have "\<dots> \<subseteq> set (trace (snd (expand_all c us (snd (expand c u w)))))"
    by (rule Cons.IH)
  finally show ?case
    by (simp add: Let_def case_prod_beta)
qed

lemma expand_all_logged:
  assumes "u \<in> set us" and "User.ListsPermsRaw u = Some raw" and "snd (Unmarshal c raw) = Some err"
  shows "Printf ''error unmarshalling list permissions for role %d: %v'' [AInt (User.ID u), AErr err]
           \<in> set (trace (snd (expand_all c us w)))"
  using assms(1)
proof (induction us arbitrary: w)
  case Nil
  then show ?case by simp
next
  case (Cons v vs)
  show ?case
  proof (cases "u = v")
    case True
    have "Printf ''error unmarshalling list permissions for role %d: %v'' [AInt (User.ID u), AErr err]
            \<in> set (trace (snd (expand c u w)))"
      using assms(2,3) by (simp add: expand_world emit_def)
    then have "Printf ''error unmarshalling list permissions for role %d: %v'' [AInt (User.ID u), AErr err]
            \<in> set (trace (snd (expand_all c vs (snd (expand c u w)))))"
      using expand_all_trace_mono by blast
    with True show ?thesis
      by (simp add: Let_def case_prod_beta)
  next
    case False
    with Cons.prems have "u \<in> set vs" by simp
    then have "Printf ''error unmarshalling list permissions for role %d: %v'' [AInt (User.ID u), AErr err]
            \<in> set (trace (snd (expand_all c vs (snd (expand c v w)))))"
      by (rule Cons.IH)
    then show ?thesis
      by (simp add: Let_def case_prod_beta)
  qed
qed

lemma expand_all_nth:
  "i < length rows \<Longrightarrow>
     fst (expand_all c (map scan rows) w) ! i = fst (expand c (scan (rows ! i)) w0)"
proof (induction rows arbitrary: w i)
  case Nil
  then show ?case by simp
next
  case (Cons r rows)
  show ?case
  proof (cases i)
    case 0
    then show ?thesis
      using expand_user_world [of c r w w0] by (simp add: Let_def case_prod_beta)
  next
    case (Suc j)
    with Cons.prems have "j < length rows" by simp
    then have "fst (expand_all c (map scan rows) (snd (expand c (scan r) w))) ! j =
               fst (expand c (scan (rows ! j)) w0)"
      by (rule Cons.IH)
    with Suc show ?thesis
      by (simp add: Let_def case_prod_beta)
  qed
qed

lemma getUsers_rows:
  assumes "q_GetUsers c uid username email = Inr rows" and "rows \<noteq> []"
  shows "getUsers c uid username email w =
           (Inr (fst (expand_all c (map scan rows) (emit (Select_GetUsers uid username email) w))),
            snd (expand_all c (map scan rows) (emit (Select_GetUsers uid username email) w)))"
  using assms by (simp add: getUsers_def Let_def split: prod.splits)

lemma getUsers_one_row:
  assumes "q_GetUsers c uid username email = Inr [r]"
  shows "getUsers c uid username email w =
           (Inr [fst (expand c (scan r) (emit (Select_GetUsers uid username email) w))],
            snd (expand c (scan r) (emit (Select_GetUsers uid username email) w)))"
  using getUsers_rows [OF assms, of w] by (simp add: Let_def case_prod_beta)

lemma getUsers_nonempty:
  assumes "getUsers c uid username email w = (Inr out, w')"
  shows "out \<noteq> []"
proof -
  from assms obtain rows where rows: "q_GetUsers c uid username email = Inr rows" "rows \<noteq> []"
    by (auto simp: getUsers_def Let_def split: sum.splits if_splits prod.splits)
  have "out = fst (expand_all c (map scan rows) (emit (Select_GetUsers uid username email) w))"
    using assms getUsers_rows [OF rows, of w] by simp
  then have "length out = length rows"
    by (simp add: expand_all_length)
  with rows show ?thesis by auto
qed

lemma getUsers_users:
  assumes "q_GetUsers c uid username email = Inr rows" and "rows \<noteq> []"
  shows "\<exists>out w'. getUsers c uid username email w = (Inr out, w') \<and> length out = length rows \<and>
           (\<forall>i<length rows. out ! i = fst (expand c (scan (rows ! i)) w)) \<and>
           (\<forall>u\<in>set (map scan rows). \<forall>raw err.
               User.ListsPermsRaw u = Some raw \<longrightarrow> snd (Unmarshal c raw) = Some err \<longrightarrow>
               Printf ''error unmarshalling list permissions for role %d: %v''
                 [AInt (User.ID u), AErr err] \<in> set (trace w'))"
proof -
  let ?w1 = "emit (Select_GetUsers uid username email) w"
  let ?out = "fst (expand_all c (map scan rows) ?w1)"
  let ?w' = "snd (expand_all c (map scan rows) ?w1)"
  have "getUsers c uid username email w = (Inr ?out, ?w')"
    using assms by (rule getUsers_rows)
  moreover have "length ?out = length rows"
    by (simp add: expand_all_length)
  moreover have "\<forall>i<length rows. ?out ! i = fst (expand c (scan (rows ! i)) w)"
    using expand_all_nth by blast
  moreover have "\<forall>u\<in>set (map scan rows). \<forall>raw err.
               User.ListsPermsRaw u = Some raw \<longrightarrow> snd (Unmarshal c raw) = Some err \<longrightarrow>
               Printf ''error unmarshalling list permissions for role %d: %v''
                 [AInt (User.ID u), AErr err] \<in> set (trace ?w')"
    using expand_all_logged by blast
  ultimately show ?thesis by blast
qed

text \<open>
  Claim C10. The single-user fetch never indexes an empty list: it never panics,
  because the multi-user fetch answers zero matching rows with an error, and so
  every list it returns on success is non-empty.
\<close>

theorem GetUser_never_out_of_bounds:
  "fst (GetUser c uid username email w) \<noteq> None
   \<and> (\<forall>out w'. getUsers c uid username email w = (Inr out, w') \<longrightarrow> out \<noteq> [])
   \<and> (q_GetUsers c uid username email = Inr [] \<longrightarrow>
        fst (getUsers c uid username email w) = Inl (OtherError ''user not found''))"
proof (intro conjI allI impI)
  show "fst (GetUser c uid username email w) \<noteq> None"
  proof (cases "getUsers c uid username (ToLower c email) w")
    case (Pair r w')
    show ?thesis
    proof (cases r)
      case (Inl err)
      with Pair show ?thesis by (simp add: GetUser_def)
    next
      case (Inr out)
      with Pair have "out \<noteq> []" by (auto dest: getUsers_nonempty)
      with Pair Inr show ?thesis by (simp add: GetUser_def split: list.splits)
    qed
  qed
next
  fix out w'
  assume "getUsers c uid username email w = (Inr out, w')"
  then show "out \<noteq> []" by (rule getUsers_nonempty)
next
  assume "q_GetUsers c uid username email = Inr []"
  then show "fst (getUsers c uid username email w) = Inl (OtherError ''user not found'')"
    by (simp add: getUsers_def)
qed

lemma core0_fields:
  "q_GetUsers core0 0 '''' '''' = Inr [row_ada, row_bot, row_eve]"
  "q_GetUsers core0 0 '''' ''ada@example.com'' = Inr [row_ada]"
  "q_GetUsers core0 0 '''' ''nobody@example.com'' = Inr []"
  "UserTypeAPI core0 = ''api''"
  "Unmarshal core0 grants_json = ([\<lparr>ListPermission.ID = 5, Permissions = [''list:view'']\<rparr>], None)"
  "Unmarshal core0 ''[{'' = ([], Some (OtherError ''unexpected end of JSON input''))"
  by (simp_all add: core0_def grants_json_def mismatch_json_def repeated_json_def)

theorem GetUser_never_out_of_bounds_witness:
  "fst (getUsers core0 0 '''' ''nobody@example.com'' world0) = Inl (OtherError ''user not found'')
   \<and> fst (GetUser core0 0 '''' ''nobody@example.com'' world0) \<noteq> None
   \<and> (\<exists>out w'. getUsers core0 0 '''' ''ada@example.com'' world0 = (Inr out, w') \<and> out \<noteq> [])"
proof -
  have "fst (getUsers core0 0 '''' ''nobody@example.com'' world0) = Inl (OtherError ''user not found'')"
    using GetUser_never_out_of_bounds [of core0 0 "''''" "''nobody@example.com''" world0]
    by (simp add: core0_fields)
  moreover have "fst (GetUser core0 0 '''' ''nobody@example.com'' world0) \<noteq> None"
    using GetUser_never_out_of_bounds [of core0 0 "''''" "''nobody@example.com''" world0]
    by simp
  moreover obtain out w' where ok: "getUsers core0 0 '''' ''ada@example.com'' world0 = (Inr out, w')"
    using getUsers_rows [of core0 0 "''''" "''ada@example.com''" "[row_ada]" world0]
    by (simp add: core0_fields)
  then have "out \<noteq> []"
    using GetUser_never_out_of_bounds [of core0 0 "''''" "''ada@example.com''" world0]
    by simp
  ultimately show ?thesis using ok by blast
qed

text \<open>
  Claim C7. For every fetched user, \<open>HasPassword\<close> is true in the output exactly when
  the stored password is non-empty, and when it is true the password-login flag of
  the output is true, whatever flag was stored.
\<close>

theorem getUsers_HasPassword:
  assumes "q_GetUsers c uid username email = Inr rows" and "rows \<noteq> []"
  shows "\<exists>out w'. getUsers c uid username email w = (Inr out, w') \<and> length out = length rows \<and>
           (\<forall>i<length rows.
              User.ID (out ! i) = user_row.ID (rows ! i) \<and>
              (HasPassword (out ! i) \<longleftrightarrow> String (user_row.Password (rows ! i)) \<noteq> '''') \<and>
              (HasPassword (out ! i) \<longrightarrow> User.PasswordLogin (out ! i)))"
proof -
  from getUsers_users [OF assms, of w] obtain out w' where
    ok: "getUsers c uid username email w = (Inr out, w')" "length out = length rows" and
    nth: "\<forall>i<length rows. out ! i = fst (expand c (scan (rows ! i)) w)"
    by blast
  have "\<forall>i<length rows.
              User.ID (out ! i) = user_row.ID (rows ! i) \<and>
              (HasPassword (out ! i) \<longleftrightarrow> String (user_row.Password (rows ! i)) \<noteq> '''') \<and>
              (HasPassword (out ! i) \<longrightarrow> User.PasswordLogin (out ! i))"
    using nth by (simp add: expand_user)
  with ok show ?thesis by blast
qed

theorem getUsers_HasPassword_witness:
  "\<exists>out w'. getUsers core0 0 '''' '''' world0 = (Inr out, w') \<and> length out = 3 \<and>
      HasPassword (out ! 0) \<and> User.PasswordLogin (out ! 0) \<and> \<not> user_row.PasswordLogin row_ada \<and>
      \<not> HasPassword (out ! 2) \<and> \<not> User.PasswordLogin (out ! 2)"
proof -
  have rows: "q_GetUsers core0 0 '''' '''' = Inr [row_ada, row_bot, row_eve]" "[row_ada, row_bot, row_eve] \<noteq> []"
    by (simp_all add: core0_fields)
  from getUsers_HasPassword [OF rows, of world0] obtain out w' where
    ok: "getUsers core0 0 '''' '''' world0 = (Inr out, w')" "length out = 3" and
    each: "\<forall>i<3. User.ID (out ! i) = user_row.ID ([row_ada, row_bot, row_eve] ! i) \<and>
              (HasPassword (out ! i) \<longleftrightarrow> String (user_row.Password ([row_ada, row_bot, row_eve] ! i)) \<noteq> '''') \<and>
              (HasPassword (out ! i) \<longrightarrow> User.PasswordLogin (out ! i))"
    by auto
  from each have "HasPassword (out ! 0) \<and> User.PasswordLogin (out ! 0)"
    by (simp add: row_ada_def)
  moreover from each have "\<not> HasPassword (out ! 2)"
    by (simp add: row_eve_def)
  moreover have "out ! 2 = fst (expand core0 (scan row_eve) world0)"
    using getUsers_users [OF rows, of world0] ok by auto
  then have "\<not> User.PasswordLogin (out ! 2)"
    by (simp add: expand_user row_eve_def)
  moreover have "\<not> user_row.PasswordLogin row_ada"
    by (simp add: row_ada_def)
  ultimately show ?thesis using ok by blast
qed

text \<open>
  Claim C8. For every fetched user of the API type, the email of the output is the
  zero value (empty and not valid), whatever email was stored.
\<close>

theorem getUsers_API_email_scrubbed:
  assumes "q_GetUsers c uid username email = Inr rows" and "rows \<noteq> []"
  shows "\<exists>out w'. getUsers c uid username email w = (Inr out, w') \<and> length out = length rows \<and>
           (\<forall>i<length rows.
              User.ID (out ! i) = user_row.ID (rows ! i) \<and>
              User.Type (out ! i) = user_row.Type (rows ! i) \<and>
              (user_row.Type (rows ! i) = UserTypeAPI c \<longrightarrow>
                 String (User.Email (out ! i)) = '''' \<and> \<not> Valid (User.Email (out ! i))))"
proof -
  from getUsers_users [OF assms, of w] obtain out w' where
    ok: "getUsers c uid username email w = (Inr out, w')" "length out = length rows" and
    nth: "\<forall>i<length rows. out ! i = fst (expand c (scan (rows ! i)) w)"
    by blast
  have "\<forall>i<length rows.
              User.ID (out ! i) = user_row.ID (rows ! i) \<and>
              User.Type (out ! i) = user_row.Type (rows ! i) \<and>
              (user_row.Type (rows ! i) = UserTypeAPI c \<longrightarrow>
                 String (User.Email (out ! i)) = '''' \<and> \<not> Valid (User.Email (out ! i)))"
    using nth by (simp add: expand_user null_String_zero_def)
  with ok show ?thesis by blast
qed

theorem getUsers_API_email_scrubbed_witness:
  "\<exists>out w'. getUsers core0 0 '''' '''' world0 = (Inr out, w') \<and> length out = 3 \<and>
      User.Type (out ! 1) = ''api'' \<and> String (user_row.Email row_bot) = ''bot@api'' \<and>
      String (User.Email (out ! 1)) = '''' \<and> \<not> Valid (User.Email (out ! 1))"
proof -
  have rows: "q_GetUsers core0 0 '''' '''' = Inr [row_ada, row_bot, row_eve]" "[row_ada, row_bot, row_eve] \<noteq> []"
    by (simp_all add: core0_fields)
  from getUsers_API_email_scrubbed [OF rows, of world0] obtain out w' where
    ok: "getUsers core0 0 '''' '''' world0 = (Inr out, w')" "length out = 3" and
    each: "\<forall>i<3. User.ID (out ! i) = user_row.ID ([row_ada, row_bot, row_eve] ! i) \<and>
              User.Type (out ! i) = user_row.Type ([row_ada, row_bot, row_eve] ! i) \<and>
              (user_row.Type ([row_ada, row_bot, row_eve] ! i) = UserTypeAPI core0 \<longrightarrow>
                 String (User.Email (out ! i)) = '''' \<and> \<not> Valid (User.Email (out ! i)))"
    by auto
  from each have "User.Type (out ! 1) = ''api'' \<and> String (User.Email (out ! 1)) = '''' \<and> \<not> Valid (User.Email (out ! 1))"
    by (simp add: row_bot_def core0_fields)
  moreover have "String (user_row.Email row_bot) = ''bot@api''"
    by (simp add: row_bot_def)
  ultimately show ?thesis using ok by blast
qed

lemma find_Some_distinct:
  "distinct (map f xs) \<Longrightarrow> x \<in> set xs \<Longrightarrow> find (\<lambda>y. f y = f x) xs = Some x"
  by (induction xs) (auto simp: image_iff)

lemma grants_map_lookup:
  "fold add_grant gs Map.empty k =
     map_option (\<lambda>g. set (ListPermission.Permissions g)) (find (\<lambda>g. ListPermission.ID g = k) (rev gs))"
  by (simp add: fold_add_grant split: option.splits)

lemma grants_map_dom: "dom (fold add_grant gs Map.empty) = ListPermission.ID ` set gs"
proof -
  have "k \<in> dom (fold add_grant gs Map.empty) \<longleftrightarrow> k \<in> ListPermission.ID ` set gs" for k
    by (auto simp: grants_map_lookup dom_def find_None_iff image_iff)
  then show ?thesis by blast
qed

lemma grants_map_distinct:
  assumes "distinct (map ListPermission.ID gs)" and "g \<in> set gs"
  shows "fold add_grant gs Map.empty (ListPermission.ID g) = Some (set (ListPermission.Permissions g))"
proof -
  have "distinct (map ListPermission.ID (rev gs))"
    using assms(1) by (simp add: rev_map [symmetric])
  moreover have "g \<in> set (rev gs)"
    using assms(2) by simp
  ultimately have "find (\<lambda>y. ListPermission.ID y = ListPermission.ID g) (rev gs) = Some g"
    by (rule find_Some_distinct)
  then show ?thesis by (simp add: grants_map_lookup)
qed

lemma core0_decoder_fields:
  "q_GetUsers core0 4 '''' '''' = Inr [row_kim]"
  "q_GetUsers core0 5 '''' '''' = Inr [row_lee]"
  "Unmarshal core0 mismatch_json =
     ([\<lparr>ListPermission.ID = 5, Permissions = [''list:view'']\<rparr>,
       \<lparr>ListPermission.ID = 0, Permissions = [''list:manage'']\<rparr>],
      Some (OtherError ''json: cannot unmarshal string into Go struct field ListPermission.id of type int''))"
  "Unmarshal core0 repeated_json =
     ([\<lparr>ListPermission.ID = 5, Permissions = [''list:view'']\<rparr>,
       \<lparr>ListPermission.ID = 5, Permissions = [''list:manage'']\<rparr>], None)"
  by (simp_all add: core0_def grants_json_def mismatch_json_def repeated_json_def)

text \<open>
  Claim C6, as amended. For every fetched user, the global set holds exactly the
  role's flat permissions, and the resource map is built from the grants that
  \<open>json.Unmarshal\<close> left in its target: its keys are exactly their resource
  identifiers, and each key is mapped to the set of the permissions of the last
  grant with that identifier (so every grant is mapped to its own permissions
  when the identifiers are distinct). When \<open>json.Unmarshal\<close> returns an error, the
  failure is logged, the grants it left are installed all the same (none when it
  left the target nil), and the user is loaded with the global set as before.
\<close>

theorem getUsers_permission_maps:
  assumes "q_GetUsers c uid username email = Inr rows" and "rows \<noteq> []"
  shows "\<exists>out w'. getUsers c uid username email w = (Inr out, w') \<and> length out = length rows \<and>
           (\<forall>i<length rows.
              User.ID (out ! i) = user_row.ID (rows ! i) \<and>
              User.Username (out ! i) = user_row.Username (rows ! i) \<and>
              PermissionsMap (out ! i) = set (user_row.RolePerms (rows ! i)) \<and>
              (user_row.ListsPermsRaw (rows ! i) = None \<longrightarrow>
                 Role.Lists (Role (out ! i)) = [] \<and> ListPermissionsMap (out ! i) = Map.empty) \<and>
              (\<forall>raw grants err.
                 user_row.ListsPermsRaw (rows ! i) = Some raw \<longrightarrow> Unmarshal c raw = (grants, err) \<longrightarrow>
                   Role.Lists (Role (out ! i)) = grants \<and>
                   dom (ListPermissionsMap (out ! i)) = ListPermission.ID ` set grants \<and>
                   (\<forall>k. ListPermissionsMap (out ! i) k =
                          map_option (\<lambda>g. set (ListPermission.Permissions g))
                            (find (\<lambda>g. ListPermission.ID g = k) (rev grants))) \<and>
                   (distinct (map ListPermission.ID grants) \<longrightarrow>
                      (\<forall>g\<in>set grants. ListPermissionsMap (out ! i) (ListPermission.ID g) =
                                          Some (set (ListPermission.Permissions g)))) \<and>
                   (grants = [] \<longrightarrow> ListPermissionsMap (out ! i) = Map.empty) \<and>
                   (\<forall>e. err = Some e \<longrightarrow>
                      Printf ''error unmarshalling list permissions for role %d: %v''
                        [AInt (user_row.ID (rows ! i)), AErr e] \<in> set (trace w'))))"
proof -
  from getUsers_users [OF assms, of w] obtain out w' where
    ok: "getUsers c uid username email w = (Inr out, w')" "length out = length rows" and
    nth: "\<forall>i<length rows. out ! i = fst (expand c (scan (rows ! i)) w)" and
    logged: "\<forall>u\<in>set (map scan rows). \<forall>raw err.
               User.ListsPermsRaw u = Some raw \<longrightarrow> snd (Unmarshal c raw) = Some err \<longrightarrow>
               Printf ''error unmarshalling list permissions for role %d: %v''
                 [AInt (User.ID u), AErr err] \<in> set (trace w')"
    by blast
  have "User.ID (out ! i) = user_row.ID (rows ! i) \<and>
        User.Username (out ! i) = user_row.Username (rows ! i) \<and>
        PermissionsMap (out ! i) = set (user_row.RolePerms (rows ! i)) \<and>
        (user_row.ListsPermsRaw (rows ! i) = None \<longrightarrow>
           Role.Lists (Role (out ! i)) = [] \<and> ListPermissionsMap (out ! i) = Map.empty) \<and>
        (\<forall>raw grants err.
           user_row.ListsPermsRaw (rows ! i) = Some raw \<longrightarrow> Unmarshal c raw = (grants, err) \<longrightarrow>
             Role.Lists (Role (out ! i)) = grants \<and>
             dom (ListPermissionsMap (out ! i)) = ListPermission.ID ` set grants \<and>
             (\<forall>k. ListPermissionsMap (out ! i) k =
                    map_option (\<lambda>g. set (ListPermission.Permissions g))
                      (find (\<lambda>g. ListPermission.ID g = k) (rev grants))) \<and>
             (distinct (map ListPermission.ID grants) \<longrightarrow>
                (\<forall>g\<in>set grants. ListPermissionsMap (out ! i) (ListPermission.ID g) =
                                    Some (set (ListPermission.Permissions g)))) \<and>
             (grants = [] \<longrightarrow> ListPermissionsMap (out ! i) = Map.empty) \<and>
             (\<forall>e. err = Some e \<longrightarrow>
                Printf ''error unmarshalling list permissions for role %d: %v''
                  [AInt (user_row.ID (rows ! i)), AErr e] \<in> set (trace w')))"
    if i: "i < length rows" for i
  proof -
    have u: "out ! i = fst (expand c (scan (rows ! i)) w)"
      using nth i by blast
    have mem: "scan (rows ! i) \<in> set (map scan rows)"
      using i by simp
    have lg: "Printf ''error unmarshalling list permissions for role %d: %v''
               [AInt (user_row.ID (rows ! i)), AErr e] \<in> set (trace w')"
      if "user_row.ListsPermsRaw (rows ! i) = Some raw" "Unmarshal c raw = (grants, Some e)"
      for raw grants e
      using logged [rule_format, OF mem, of raw e] that by (simp add: scan_def)
    have lpm: "ListPermissionsMap (out ! i) =
        fold add_grant
          (case user_row.ListsPermsRaw (rows ! i) of None \<Rightarrow> []
           | Some raw \<Rightarrow> fst (Unmarshal c raw)) Map.empty"
      by (simp add: u expand_user)
    have basic: "User.ID (out ! i) = user_row.ID (rows ! i) \<and>
        User.Username (out ! i) = user_row.Username (rows ! i) \<and>
        PermissionsMap (out ! i) = set (user_row.RolePerms (rows ! i))"
      by (simp add: u expand_user)
    have none: "user_row.ListsPermsRaw (rows ! i) = None \<longrightarrow>
        Role.Lists (Role (out ! i)) = [] \<and> ListPermissionsMap (out ! i) = Map.empty"
      by (simp add: u expand_user)
    have decoded: "Role.Lists (Role (out ! i)) = grants \<and>
             dom (ListPermissionsMap (out ! i)) = ListPermission.ID ` set grants \<and>
             (\<forall>k. ListPermissionsMap (out ! i) k =
                    map_option (\<lambda>g. set (ListPermission.Permissions g))
                      (find (\<lambda>g. ListPermission.ID g = k) (rev grants))) \<and>
             (distinct (map ListPermission.ID grants) \<longrightarrow>
                (\<forall>g\<in>set grants. ListPermissionsMap (out ! i) (ListPermission.ID g) =
                                    Some (set (ListPermission.Permissions g)))) \<and>
             (grants = [] \<longrightarrow> ListPermissionsMap (out ! i) = Map.empty) \<and>
             (\<forall>e. err = Some e \<longrightarrow>
                Printf ''error unmarshalling list permissions for role %d: %v''
                  [AInt (user_row.ID (rows ! i)), AErr e] \<in> set (trace w'))"
      if raw: "user_row.ListsPermsRaw (rows ! i) = Some raw" and un: "Unmarshal c raw = (grants, err)"
      for raw grants err
    proof (intro conjI allI impI ballI)
      show "Role.Lists (Role (out ! i)) = grants"
        using raw un by (simp add: u expand_user)
      show "dom (ListPermissionsMap (out ! i)) = ListPermission.ID ` set grants"
        using raw un by (simp add: lpm grants_map_dom)
      show "ListPermissionsMap (out ! i) k =
              map_option (\<lambda>g. set (ListPermission.Permissions g))
                (find (\<lambda>g. ListPermission.ID g = k) (rev grants))" for k
        using raw un by (simp add: lpm grants_map_lookup)
      show "ListPermissionsMap (out ! i) (ListPermission.ID g) = Some (set (ListPermission.Permissions g))"
        if "distinct (map ListPermission.ID grants)" "g \<in> set grants" for g
        using that raw un by (simp add: lpm grants_map_distinct)
      show "ListPermissionsMap (out ! i) = Map.empty" if "grants = []"
        using that raw un by (simp add: lpm)
      show "Printf ''error unmarshalling list permissions for role %d: %v''
              [AInt (user_row.ID (rows ! i)), AErr e] \<in> set (trace w')" if "err = Some e" for e
        using that raw un lg by blast
    qed
    show ?thesis
      using basic none decoded by blast
  qed
  with ok show ?thesis by blast
qed

theorem getUsers_permission_maps_witness:
  "\<exists>out w'. getUsers core0 0 '''' '''' world0 = (Inr out, w') \<and> length out = 3 \<and>
      PermissionsMap (out ! 0) = {''users:manage''} \<and>
      dom (ListPermissionsMap (out ! 0)) = {5} \<and>
      ListPermissionsMap (out ! 0) 5 = Some {''list:view''} \<and>
      User.Username (out ! 1) = ''bot'' \<and>
      ListPermissionsMap (out ! 1) = Map.empty \<and>
      Printf ''error unmarshalling list permissions for role %d: %v''
        [AInt 2, AErr (OtherError ''unexpected end of JSON input'')] \<in> set (trace w')"
proof -
  have rows: "q_GetUsers core0 0 '''' '''' = Inr [row_ada, row_bot, row_eve]" "[row_ada, row_bot, row_eve] \<noteq> []"
    by (simp_all add: core0_fields)
  from getUsers_permission_maps [OF rows, of world0] obtain out w' where
    ok: "getUsers core0 0 '''' '''' world0 = (Inr out, w')" "length out = length [row_ada, row_bot, row_eve]" and
    each: "\<forall>i<length [row_ada, row_bot, row_eve].
              User.ID (out ! i) = user_row.ID ([row_ada, row_bot, row_eve] ! i) \<and>
              User.Username (out ! i) = user_row.Username ([row_ada, row_bot, row_eve] ! i) \<and>
              PermissionsMap (out ! i) = set (user_row.RolePerms ([row_ada, row_bot, row_eve] ! i)) \<and>
              (user_row.ListsPermsRaw ([row_ada, row_bot, row_eve] ! i) = None \<longrightarrow>
                 Role.Lists (Role (out ! i)) = [] \<and> ListPermissionsMap (out ! i) = Map.empty) \<and>
              (\<forall>raw grants err.
                 user_row.ListsPermsRaw ([row_ada, row_bot, row_eve] ! i) = Some raw \<longrightarrow> Unmarshal core0 raw = (grants, err) \<longrightarrow>
                   Role.Lists (Role (out ! i)) = grants \<and>
                   dom (ListPermissionsMap (out ! i)) = ListPermission.ID ` set grants \<and>
                   (\<forall>k. ListPermissionsMap (out ! i) k =
                          map_option (\<lambda>g. set (ListPermission.Permissions g))
                            (find (\<lambda>g. ListPermission.ID g = k) (rev grants))) \<and>
                   (distinct (map ListPermission.ID grants) \<longrightarrow>
                      (\<forall>g\<in>set grants. ListPermissionsMap (out ! i) (ListPermission.ID g) =
                                          Some (set (ListPermission.Permissions g)))) \<and>
                   (grants = [] \<longrightarrow> ListPermissionsMap (out ! i) = Map.empty) \<and>
                   (\<forall>e. err = Some e \<longrightarrow>
                      Printf ''error unmarshalling list permissions for role %d: %v''
                        [AInt (user_row.ID ([row_ada, row_bot, row_eve] ! i)), AErr e] \<in> set (trace w')))"
    by blast
  from each [rule_format, of 0]
  have "PermissionsMap (out ! 0) = {''users:manage''} \<and>
        dom (ListPermissionsMap (out ! 0)) = {5} \<and>
        ListPermissionsMap (out ! 0) 5 = Some {''list:view''}"
    by (simp add: row_ada_def core0_fields)
  moreover from each [rule_format, of 1]
  have "User.Username (out ! 1) = ''bot'' \<and> ListPermissionsMap (out ! 1) = Map.empty \<and>
        Printf ''error unmarshalling list permissions for role %d: %v''
          [AInt 2, AErr (OtherError ''unexpected end of JSON input'')] \<in> set (trace w')"
    by (simp add: row_bot_def core0_fields)
  ultimately show ?thesis using ok by auto
qed

text \<open>
  Claim C6 as stated fails twice. A payload that is valid JSON but has a string
  where the \<open>id\<close> should be a number: the decoder returns a type error having filled
  the target, the failure is logged, and the user is loaded with both grants
  installed (one under the identifier 0), not with none. And a payload with two
  grants for resource 5: the key 5 is mapped to the second grant's permissions
  only, not to the first's.
\<close>

theorem getUsers_parse_failure_counterexample:
  "Unmarshal core0 mismatch_json =
     ([\<lparr>ListPermission.ID = 5, Permissions = [''list:view'']\<rparr>,
       \<lparr>ListPermission.ID = 0, Permissions = [''list:manage'']\<rparr>],
      Some (OtherError ''json: cannot unmarshal string into Go struct field ListPermission.id of type int''))
   \<and> getUsers core0 4 '''' '''' world0 =
       (Inr [fst (expand core0 (scan row_kim) (emit (Select_GetUsers 4 '''' '''') world0))],
        snd (expand core0 (scan row_kim) (emit (Select_GetUsers 4 '''' '''') world0)))
   \<and> trace (snd (expand core0 (scan row_kim) (emit (Select_GetUsers 4 '''' '''') world0))) =
       [Select_GetUsers 4 '''' '''',
        Printf ''error unmarshalling list permissions for role %d: %v''
          [AInt 4, AErr (OtherError ''json: cannot unmarshal string into Go struct field ListPermission.id of type int'')]]
   \<and> Role.Lists (Role (fst (expand core0 (scan row_kim) (emit (Select_GetUsers 4 '''' '''') world0)))) =
       [\<lparr>ListPermission.ID = 5, Permissions = [''list:view'']\<rparr>,
        \<lparr>ListPermission.ID = 0, Permissions = [''list:manage'']\<rparr>]
   \<and> ListPermissionsMap (fst (expand core0 (scan row_kim) (emit (Select_GetUsers 4 '''' '''') world0))) 5
       = Some {''list:view''}
   \<and> ListPermissionsMap (fst (expand core0 (scan row_kim) (emit (Select_GetUsers 4 '''' '''') world0))) 0
       = Some {''list:manage''}
   \<and> Unmarshal core0 repeated_json =
       ([\<lparr>ListPermission.ID = 5, Permissions = [''list:view'']\<rparr>,
         \<lparr>ListPermission.ID = 5, Permissions = [''list:manage'']\<rparr>], None)
   \<and> getUsers core0 5 '''' '''' world0 =
       (Inr [fst (expand core0 (scan row_lee) (emit (Select_GetUsers 5 '''' '''') world0))],
        snd (expand core0 (scan row_lee) (emit (Select_GetUsers 5 '''' '''') world0)))
   \<and> ListPermissionsMap (fst (expand core0 (scan row_lee) (emit (Select_GetUsers 5 '''' '''') world0))) 5
       = Some {''list:manage''}
   \<and> ListPermissionsMap (fst (expand core0 (scan row_lee) (emit (Select_GetUsers 5 '''' '''') world0))) 5
       \<noteq> Some {''list:view''}"
proof -
  let ?wk = "emit (Select_GetUsers 4 '''' '''') world0"
  let ?wl = "emit (Select_GetUsers 5 '''' '''') world0"
  have k1: "getUsers core0 4 '''' '''' world0 =
       (Inr [fst (expand core0 (scan row_kim) ?wk)], snd (expand core0 (scan row_kim) ?wk))"
    by (rule getUsers_one_row) (rule core0_decoder_fields)
  have k2: "trace (snd (expand core0 (scan row_kim) ?wk)) =
       [Select_GetUsers 4 '''' '''',
        Printf ''error unmarshalling list permissions for role %d: %v''
          [AInt 4, AErr (OtherError ''json: cannot unmarshal string into Go struct field ListPermission.id of type int'')]]"
    by (simp add: expand_world scan_def row_kim_def core0_decoder_fields emit_def world0_def)
  have k3: "Role.Lists (Role (fst (expand core0 (scan row_kim) ?wk))) =
       [\<lparr>ListPermission.ID = 5, Permissions = [''list:view'']\<rparr>,
        \<lparr>ListPermission.ID = 0, Permissions = [''list:manage'']\<rparr>]"
    by (simp add: expand_user row_kim_def core0_decoder_fields)
  have k4: "ListPermissionsMap (fst (expand core0 (scan row_kim) ?wk)) 5 = Some {''list:view''}"
    by (simp add: expand_user row_kim_def core0_decoder_fields add_grant_eq)
  have k5: "ListPermissionsMap (fst (expand core0 (scan row_kim) ?wk)) 0 = Some {''list:manage''}"
    by (simp add: expand_user row_kim_def core0_decoder_fields add_grant_eq)
  have l1: "getUsers core0 5 '''' '''' world0 =
       (Inr [fst (expand core0 (scan row_lee) ?wl)], snd (expand core0 (scan row_lee) ?wl))"
    by (rule getUsers_one_row) (rule core0_decoder_fields)
  have l2: "ListPermissionsMap (fst (expand core0 (scan row_lee) ?wl)) 5 = Some {''list:manage''}"
    by (simp add: expand_user row_lee_def core0_decoder_fields add_grant_eq)
  have l3: "ListPermissionsMap (fst (expand core0 (scan row_lee) ?wl)) 5 \<noteq> Some {''list:view''}"
    by (simp add: l2)
  show ?thesis
    using k1 k2 k3 k4 k5 l1 l2 l3 core0_decoder_fields(3,4) by blast
qed

section \<open>The login handlers: nonce, input lengths, timing\<close>

lemma app0_fields:
  "core app0 = core0"
  "App.T app0 = (\<lambda>key. key)"
  "App.Ts app0 = (\<lambda>key params. key)"
  "SetSession app0 = (\<lambda>user token. None)"
  "stdInputMaxLen app0 = 2000"
  "TrimSpace app0 = ascii_TrimSpace"
  "uriAdmin app0 = ''/admin''"
  "GetOIDCAuthURL app0 = (\<lambda>next nonce. ''https://idp.example.com/auth?state='' @ nonce @ ''&next='' @ next)"
  "SanitizeURI app0 ''/'' = ''/''"
  "SanitizeURI app0 '''' = ''/''"
  "rand_Read app0 = (\<lambda>n. Inr (replicate n 0xFF))"
  "OIDC_Enabled app0 = True"
  "OIDC_Provider app0 = ''https://accounts.google.com''"
  "url_Hostname app0 ''https://accounts.google.com'' = Inr ''accounts.google.com''"
  by (simp_all add: app0_def)

lemma post_fields:
  "Method (post nonce form) = ''POST''"
  "Cookie (post None form) ''nonce'' = None"
  "Cookie (post (Some v) form) ''nonce'' = Some v"
  "FormValue (post nonce form) name = (case map_of form name of None \<Rightarrow> '''' | Some v \<Rightarrow> v)"
  "QueryParam (post nonce form) name = ''''"
  by (simp_all add: post_def)

lemma ascii_TrimSpace_examples:
  "ascii_TrimSpace '' ab '' = ''ab''"
  "ascii_TrimSpace ''ada'' = ''ada''"
  "ascii_TrimSpace ''secret-password'' = ''secret-password''"
  "ascii_TrimSpace ''wrong password'' = ''wrong password''"
  "ascii_TrimSpace ''correct horse'' = ''correct horse''"
  by (simp_all add: ascii_TrimSpace_def isSpace_def)

text \<open>
  Claim C4. Federated-login initiation returns Unauthorized (401) unless the nonce
  cookie is present, non-empty and equal to the form's nonce: a missing cookie, an
  empty cookie and every unequal pair give the 401 and no redirect; a present,
  non-empty, equal nonce gives the redirect to the identity provider.
\<close>

theorem handleOIDCLogin_nonce_check:
  "(Cookie c ''nonce'' = None \<or> Cookie c ''nonce'' = Some '''' \<or>
      Cookie c ''nonce'' \<noteq> Some (FormValue c ''nonce'') \<longrightarrow>
      handleOIDCLogin app c = Inl (HTTPError 401 (App.T app ''users.invalidRequest'')) \<and>
      (\<forall>code url. handleOIDCLogin app c \<noteq> Inr (Redirect code url)))
   \<and> (\<forall>nonce. Cookie c ''nonce'' = Some nonce \<and> nonce \<noteq> '''' \<and> nonce = FormValue c ''nonce'' \<longrightarrow>
        handleOIDCLogin app c =
          Inr (Redirect 302 (GetOIDCAuthURL app
                 (if SanitizeURI app (FormValue c ''next'') = ''/'' then uriAdmin app
                  else SanitizeURI app (FormValue c ''next'')) nonce)))"
  by (cases "Cookie c ''nonce''") (auto simp: handleOIDCLogin_def Let_def)

theorem handleOIDCLogin_nonce_check_witness:
  "handleOIDCLogin app0 (post (Some '''') [(''nonce'', ''n1'')]) = Inl (HTTPError 401 ''users.invalidRequest'')
   \<and> handleOIDCLogin app0 (post (Some ''n1'') [(''nonce'', ''n2'')]) = Inl (HTTPError 401 ''users.invalidRequest'')
   \<and> handleOIDCLogin app0 (post None [(''nonce'', ''n1'')]) = Inl (HTTPError 401 ''users.invalidRequest'')
   \<and> handleOIDCLogin app0 (post (Some ''n1'') [(''nonce'', ''n1''), (''next'', ''/'')]) =
        Inr (Redirect 302 ''https://idp.example.com/auth?state=n1&next=/admin'')"
proof -
  let ?c1 = "post (Some '''') [(''nonce'', ''n1'')]"
  let ?c2 = "post (Some ''n1'') [(''nonce'', ''n2'')]"
  let ?c3 = "post None [(''nonce'', ''n1'')]"
  let ?c4 = "post (Some ''n1'') [(''nonce'', ''n1''), (''next'', ''/'')]"
  have h1: "Cookie ?c1 ''nonce'' = None \<or> Cookie ?c1 ''nonce'' = Some '''' \<or>
            Cookie ?c1 ''nonce'' \<noteq> Some (FormValue ?c1 ''nonce'')"
    by (simp add: post_fields)
  have h2: "Cookie ?c2 ''nonce'' = None \<or> Cookie ?c2 ''nonce'' = Some '''' \<or>
            Cookie ?c2 ''nonce'' \<noteq> Some (FormValue ?c2 ''nonce'')"
    by (simp add: post_fields)
  have h3: "Cookie ?c3 ''nonce'' = None \<or> Cookie ?c3 ''nonce'' = Some '''' \<or>
            Cookie ?c3 ''nonce'' \<noteq> Some (FormValue ?c3 ''nonce'')"
    by (simp add: post_fields)
  have h4: "Cookie ?c4 ''nonce'' = Some ''n1'' \<and> ''n1'' \<noteq> '''' \<and> ''n1'' = FormValue ?c4 ''nonce''"
    by (simp add: post_fields)
  have r1: "handleOIDCLogin app0 ?c1 = Inl (HTTPError 401 (App.T app0 ''users.invalidRequest''))"
    using handleOIDCLogin_nonce_check [of ?c1 app0] h1 by blast
  have r2: "handleOIDCLogin app0 ?c2 = Inl (HTTPError 401 (App.T app0 ''users.invalidRequest''))"
    using handleOIDCLogin_nonce_check [of ?c2 app0] h2 by blast
  have r3: "handleOIDCLogin app0 ?c3 = Inl (HTTPError 401 (App.T app0 ''users.invalidRequest''))"
    using handleOIDCLogin_nonce_check [of ?c3 app0] h3 by blast
  have r4: "handleOIDCLogin app0 ?c4 =
          Inr (Redirect 302 (GetOIDCAuthURL app0
                 (if SanitizeURI app0 (FormValue ?c4 ''next'') = ''/'' then uriAdmin app0
                  else SanitizeURI app0 (FormValue ?c4 ''next'')) ''n1''))"
    using handleOIDCLogin_nonce_check [of ?c4 app0] h4 by blast
  have n4: "FormValue ?c4 ''next'' = ''/''"
    by (simp add: post_fields)
  show ?thesis
    by (simp add: r1 r2 r3 r4 n4 app0_fields)
qed

text \<open>
  Claim C3. When the trimmed username is shorter than 3 or longer than the shared
  maximum, or the trimmed password is shorter than 8 or longer than that maximum,
  \<open>doLogin\<close> returns the 400 error for invalid fields and leaves the world as it
  found it: the store's password query is not made.
\<close>

theorem doLogin_invalid_input:
  assumes "int (length (TrimSpace app (FormValue c ''username''))) < 3 \<or>
           int (length (TrimSpace app (FormValue c ''username''))) > stdInputMaxLen app \<or>
           int (length (TrimSpace app (FormValue c ''password''))) < 8 \<or>
           int (length (TrimSpace app (FormValue c ''password''))) > stdInputMaxLen app"
  shows "(\<exists>field. fst (doLogin app c w) =
            Some (HTTPError 400 (App.Ts app ''globals.messages.invalidFields'' [''name'', field])))
         \<and> snd (doLogin app c w) = w
         \<and> (\<forall>username password.
               Get_LoginUser username password \<in> set (trace (snd (doLogin app c w))) \<longrightarrow>
               Get_LoginUser username password \<in> set (trace w))"
proof -
  let ?u = "TrimSpace app (FormValue c ''username'')"
  let ?p = "TrimSpace app (FormValue c ''password'')"
  from assms have "\<not> strHasLen ?u 3 (stdInputMaxLen app) \<or> \<not> strHasLen ?p 8 (stdInputMaxLen app)"
    by (auto simp: strHasLen_def)
  then show ?thesis
    by (auto simp: doLogin_def Let_def)
qed

theorem doLogin_invalid_input_witness:
  "doLogin app0 (post (Some ''n1'') [(''nonce'', ''n1''), (''username'', '' ab ''), (''password'', ''secret-password'')]) world0
     = (Some (HTTPError 400 ''globals.messages.invalidFields''), world0)"
proof -
  let ?c = "post (Some ''n1'') [(''nonce'', ''n1''), (''username'', '' ab ''), (''password'', ''secret-password'')]"
  have short: "int (length (TrimSpace app0 (FormValue ?c ''username''))) < 3"
    by (simp add: post_def app0_fields ascii_TrimSpace_examples)
  then have "(\<exists>field. fst (doLogin app0 ?c world0) =
            Some (HTTPError 400 (App.Ts app0 ''globals.messages.invalidFields'' [''name'', field])))
         \<and> snd (doLogin app0 ?c world0) = world0"
    using doLogin_invalid_input [of app0 ?c world0] by blast
  then show ?thesis
    by (simp add: app0_fields prod_eq_iff)
qed

lemma core0_login_fields:
  "q_LoginUser core0 ''ada'' ''wrong password'' = Inl ErrNoRows"
  "q_LoginUser core0 ''ada'' ''correct horse'' = Inr row_ada"
  "q_LoginUser_ns core0 username password = 5000000"
  "Core.T core0 = (\<lambda>key. key)"
  by (simp_all add: core0_def)

lemma world0_fields: "clock world0 = 0" "trace world0 = []"
  by (simp_all add: world0_def)

lemma renderLoginPage_shape:
  "\<exists>out. Error out = (case loginErr of None \<Rightarrow> '''' | Some e \<Rightarrow> tpl_Error e) \<and>
     renderLoginPage app c loginErr w =
       (case GenerateRandomString (rand_Read app) 16 of
          (nonce, Some err) \<Rightarrow>
            (Inl (HTTPError 400 (App.T app ''globals.messages.internalError'')),
             emit (Printf ''error generating OIDC nonce: %v'' [AErr err]) w)
        | (nonce, None) \<Rightarrow>
            (case Render c 200 ''admin-login'' (out\<lparr>Nonce := nonce\<rparr>) of
               Some err \<Rightarrow> (Inl err, emit (Set_Cookie ''nonce'' nonce) w)
             | None \<Rightarrow> (Inr (Rendered 200 ''admin-login'' (out\<lparr>Nonce := nonce\<rparr>)),
                         emit (Set_Cookie ''nonce'' nonce) w)))"
proof -
  define next0 where "next0 = SanitizeURI app (FormValue c ''next'')"
  define provider where "provider =
     (if OIDC_Enabled app
      then (case url_Hostname app (OIDC_Provider app) of
              Inl err \<Rightarrow> ('''', ''oidc.png'')
            | Inr hostname \<Rightarrow>
                (let h = Split hostname CHR ''.'';
                     p = (if length h \<ge> 2
                          then h ! (length h - 2) @ ''.'' @ h ! (length h - 1)
                          else hostname)
                 in if p \<in> dom oidcProviders then (p, p @ ''.png'')
                    else (p, ''oidc.png'')))
      else ('''', ''''))"
  define out where "out =
     \<lparr>Title = App.T app ''users.login'', Description = '''',
      NextURI = (if next0 = ''/'' then uriAdmin app else next0), Nonce = '''',
      PasswordEnabled = True,
      OIDCProvider = fst provider, OIDCProviderLogo = snd provider,
      Error = (case loginErr of None \<Rightarrow> '''' | Some e \<Rightarrow> tpl_Error e)\<rparr>"
  have "Error out = (case loginErr of None \<Rightarrow> '''' | Some e \<Rightarrow> tpl_Error e)"
    by (simp add: out_def)
  moreover have "renderLoginPage app c loginErr w =
       (case GenerateRandomString (rand_Read app) 16 of
          (nonce, Some err) \<Rightarrow>
            (Inl (HTTPError 400 (App.T app ''globals.messages.internalError'')),
             emit (Printf ''error generating OIDC nonce: %v'' [AErr err]) w)
        | (nonce, None) \<Rightarrow>
            (case Render c 200 ''admin-login'' (out\<lparr>Nonce := nonce\<rparr>) of
               Some err \<Rightarrow> (Inl err, emit (Set_Cookie ''nonce'' nonce) w)
             | None \<Rightarrow> (Inr (Rendered 200 ''admin-login'' (out\<lparr>Nonce := nonce\<rparr>)),
                         emit (Set_Cookie ''nonce'' nonce) w)))"
    unfolding renderLoginPage_def out_def provider_def next0_def
    by (simp only: Let_def case_prod_beta)
  ultimately show ?thesis by blast
qed

lemma renderLoginPage_clock: "clock (snd (renderLoginPage app c loginErr w)) = clock w"
proof -
  from renderLoginPage_shape [of loginErr app c w] obtain out where
    "renderLoginPage app c loginErr w =
       (case GenerateRandomString (rand_Read app) 16 of
          (nonce, Some err) \<Rightarrow>
            (Inl (HTTPError 400 (App.T app ''globals.messages.internalError'')),
             emit (Printf ''error generating OIDC nonce: %v'' [AErr err]) w)
        | (nonce, None) \<Rightarrow>
            (case Render c 200 ''admin-login'' (out\<lparr>Nonce := nonce\<rparr>) of
               Some err \<Rightarrow> (Inl err, emit (Set_Cookie ''nonce'' nonce) w)
             | None \<Rightarrow> (Inr (Rendered 200 ''admin-login'' (out\<lparr>Nonce := nonce\<rparr>)),
                         emit (Set_Cookie ''nonce'' nonce) w)))"
    by blast
  then show ?thesis
    by (simp add: emit_def split: prod.splits option.splits)
qed

lemma LoginUser_wrong_password:
  "LoginUser core0 ''ada'' ''wrong password'' world0 =
     ((User_zero, Some (HTTPError 403 ''users.invalidLogin'')),
      \<lparr>clock = 5000000, trace = [Get_LoginUser ''ada'' ''wrong password'']\<rparr>)"
  by (simp add: LoginUser_def core0_login_fields world0_def emit_def)

lemma LoginUser_right_password:
  "LoginUser core0 ''ada'' ''correct horse'' world0 =
     ((scan row_ada, None),
      \<lparr>clock = 5000000, trace = [Get_LoginUser ''ada'' ''correct horse'']\<rparr>)"
  by (simp add: LoginUser_def core0_login_fields world0_def emit_def)

text \<open>
  Claim C1, on the code. A login that fails verification: the store answers after
  5 ms that no row matches. \<open>doLogin\<close> returns the 403 at once, at 5 ms on the
  clock and with no sleep in the trace, far under the floor of 100 ms; the page
  is then rendered without any further wait.
\<close>

theorem doLogin_failed_login_returns_early:
  "doLogin app0 (post (Some ''n1'') [(''nonce'', ''n1''), (''username'', ''ada''), (''password'', ''wrong password'')]) world0
     = (Some (HTTPError 403 ''users.invalidLogin''),
        \<lparr>clock = 5000000, trace = [Get_LoginUser ''ada'' ''wrong password'']\<rparr>)
   \<and> clock (snd (handleLoginPage app0 (post (Some ''n1'') [(''nonce'', ''n1''), (''username'', ''ada''), (''password'', ''wrong password'')]) world0))
       = 5000000"
proof -
  let ?c = "post (Some ''n1'') [(''nonce'', ''n1''), (''username'', ''ada''), (''password'', ''wrong password'')]"
  have d: "doLogin app0 ?c world0
     = (Some (HTTPError 403 ''users.invalidLogin''),
        \<lparr>clock = 5000000, trace = [Get_LoginUser ''ada'' ''wrong password'']\<rparr>)"
    by (simp add: doLogin_def Let_def app0_fields post_fields strHasLen_def
          ascii_TrimSpace_examples LoginUser_wrong_password)
  have "clock (snd (handleLoginPage app0 ?c world0)) = 5000000"
    by (simp add: handleLoginPage_def d post_fields(1) renderLoginPage_clock)
  with d show ?thesis by simp
qed

text \<open>
  Claim C2, on the code. A form post whose nonce field differs from the non-empty
  nonce of the cookie, with valid credentials: \<open>doLogin\<close> queries the store and logs
  the user in.
\<close>

theorem doLogin_nonce_mismatch_reaches_store:
  "Cookie (post (Some ''n1'') [(''nonce'', ''forged''), (''username'', ''ada''), (''password'', ''correct horse'')]) ''nonce'' = Some ''n1''
   \<and> FormValue (post (Some ''n1'') [(''nonce'', ''forged''), (''username'', ''ada''), (''password'', ''correct horse'')]) ''nonce'' = ''forged''
   \<and> doLogin app0 (post (Some ''n1'') [(''nonce'', ''forged''), (''username'', ''ada''), (''password'', ''correct horse'')]) world0
     = (None, \<lparr>clock = 5000005,
               trace = [Get_LoginUser ''ada'' ''correct horse'', Sleep 5, Set_Session 1 '''']\<rparr>)"
proof -
  let ?c = "post (Some ''n1'') [(''nonce'', ''forged''), (''username'', ''ada''), (''password'', ''correct horse'')]"
  have "doLogin app0 ?c world0
     = (None, \<lparr>clock = 5000005,
               trace = [Get_LoginUser ''ada'' ''correct horse'', Sleep 5, Set_Session 1 '''']\<rparr>)"
    by (simp add: doLogin_def Let_def app0_fields post_fields strHasLen_def
          ascii_TrimSpace_examples LoginUser_right_password time_Sleep_def emit_def
          scan_def row_ada_def world0_fields)
  then show ?thesis
    by (simp add: post_fields)
qed

section \<open>Completing the federated login\<close>

lemma renderLoginPage_cases:
  obtains (no_nonce) nonce gerr where
      "GenerateRandomString (rand_Read app) 16 = (nonce, Some gerr)"
      "renderLoginPage app c loginErr w =
         (Inl (HTTPError 400 (App.T app ''globals.messages.internalError'')),
          emit (Printf ''error generating OIDC nonce: %v'' [AErr gerr]) w)"
  | (not_written) nonce tpl rerr where
      "GenerateRandomString (rand_Read app) 16 = (nonce, None)"
      "Error tpl = (case loginErr of None \<Rightarrow> '''' | Some e \<Rightarrow> tpl_Error e)"
      "Render c 200 ''admin-login'' tpl = Some rerr"
      "renderLoginPage app c loginErr w = (Inl rerr, emit (Set_Cookie ''nonce'' nonce) w)"
  | (written) nonce tpl where
      "GenerateRandomString (rand_Read app) 16 = (nonce, None)"
      "Error tpl = (case loginErr of None \<Rightarrow> '''' | Some e \<Rightarrow> tpl_Error e)"
      "Render c 200 ''admin-login'' tpl = None"
      "renderLoginPage app c loginErr w =
         (Inr (Rendered 200 ''admin-login'' tpl), emit (Set_Cookie ''nonce'' nonce) w)"
proof -
  from renderLoginPage_shape [of loginErr app c w] obtain out where
    out: "Error out = (case loginErr of None \<Rightarrow> '''' | Some e \<Rightarrow> tpl_Error e)" and
    eq: "renderLoginPage app c loginErr w =
       (case GenerateRandomString (rand_Read app) 16 of
          (nonce, Some err) \<Rightarrow>
            (Inl (HTTPError 400 (App.T app ''globals.messages.internalError'')),
             emit (Printf ''error generating OIDC nonce: %v'' [AErr err]) w)
        | (nonce, None) \<Rightarrow>
            (case Render c 200 ''admin-login'' (out\<lparr>Nonce := nonce\<rparr>) of
               Some err \<Rightarrow> (Inl err, emit (Set_Cookie ''nonce'' nonce) w)
             | None \<Rightarrow> (Inr (Rendered 200 ''admin-login'' (out\<lparr>Nonce := nonce\<rparr>)),
                         emit (Set_Cookie ''nonce'' nonce) w)))"
    by blast
  obtain nonce g where gen: "GenerateRandomString (rand_Read app) 16 = (nonce, g)"
    by (cases "GenerateRandomString (rand_Read app) 16")
  have err_tpl: "Error (out\<lparr>Nonce := nonce\<rparr>) = (case loginErr of None \<Rightarrow> '''' | Some e \<Rightarrow> tpl_Error e)"
    using out by simp
  show thesis
  proof (cases g)
    case (Some gerr)
    show thesis
      by (rule no_nonce [of nonce gerr]) (simp_all add: eq gen Some)
  next
    case None
    show thesis
    proof (cases "Render c 200 ''admin-login'' (out\<lparr>Nonce := nonce\<rparr>)")
      case (Some rerr)
      show thesis
        by (rule not_written [of nonce "out\<lparr>Nonce := nonce\<rparr>" rerr])
           (simp_all add: eq gen None Some err_tpl)
    next
      case rn: None
      show thesis
        by (rule written [of nonce "out\<lparr>Nonce := nonce\<rparr>"])
           (simp_all add: eq gen None rn err_tpl)
    qed
  qed
qed

lemma renderLoginPage_nonce_ok:
  assumes "rand_Read app 16 = Inr bytes"
  shows "\<exists>tpl. Error tpl = tpl_Error err \<and>
           (Render c 200 ''admin-login'' tpl = None \<longrightarrow>
              fst (renderLoginPage app c (Some err) w) = Inr (Rendered 200 ''admin-login'' tpl)) \<and>
           (\<forall>re. Render c 200 ''admin-login'' tpl = Some re \<longrightarrow>
              fst (renderLoginPage app c (Some err) w) = Inl re)"
proof -
  have gen: "snd (GenerateRandomString (rand_Read app) 16) = None"
    using assms by (simp add: GenerateRandomString_def)
  show ?thesis
  proof (cases rule: renderLoginPage_cases [of app c "Some err" w])
    case (no_nonce nonce gerr)
    with gen show ?thesis by simp
  next
    case (not_written nonce tpl rerr)
    then show ?thesis by auto
  next
    case (written nonce tpl)
    then show ?thesis by auto
  qed
qed

lemma renderLoginPage_no_nonce:
  assumes "rand_Read app 16 = Inl err"
  shows "renderLoginPage app c loginErr w =
           (Inl (HTTPError 400 (App.T app ''globals.messages.internalError'')),
            emit (Printf ''error generating OIDC nonce: %v'' [AErr err]) w)"
proof -
  have gen: "GenerateRandomString (rand_Read app) 16 = ('''', Some err)"
    using assms by (simp add: GenerateRandomString_def)
  show ?thesis
  proof (cases rule: renderLoginPage_cases [of app c loginErr w])
    case (no_nonce nonce gerr)
    with gen show ?thesis by simp
  next
    case (not_written nonce tpl rerr)
    with gen show ?thesis by simp
  next
    case (written nonce tpl)
    with gen show ?thesis by simp
  qed
qed

lemma renderLoginPage_not_Redirect:
  "fst (renderLoginPage app c loginErr w) \<noteq> Inr (Redirect code url)"
  by (cases rule: renderLoginPage_cases [of app c loginErr w]) simp_all

lemma fst_after_page:
  assumes "handleOIDCFinish app c w =
             (let (r, w') = renderLoginPage app c (Some err) wx in (Some r, w'))"
  shows "fst (handleOIDCFinish app c w) = Some (fst (renderLoginPage app c (Some err) wx))"
  using assms by (simp add: case_prod_beta)

lemma finish_no_cookie:
  assumes "Cookie c ''nonce'' = None \<or> Cookie c ''nonce'' = Some ''''"
  shows "handleOIDCFinish app c w =
           (let (r, w') = renderLoginPage app c (Some (HTTPError 401 (App.T app ''users.invalidRequest''))) w
            in (Some r, w'))"
  using assms by (auto simp: handleOIDCFinish_def Let_def)

lemma finish_exchange_failed:
  assumes "Cookie c ''nonce'' = Some nonce" "nonce \<noteq> ''''"
    and "ExchangeOIDCToken app (QueryParam c ''code'') nonce = Inl err"
  shows "handleOIDCFinish app c w =
           (let (r, w') = renderLoginPage app c (Some err)
                            (emit (Exchange_OIDCToken (QueryParam c ''code'') nonce) w)
            in (Some r, w'))"
  using assms by (simp add: handleOIDCFinish_def Let_def)

lemma finish_lookup_failed:
  assumes "Cookie c ''nonce'' = Some nonce" "nonce \<noteq> ''''"
    and "ExchangeOIDCToken app (QueryParam c ''code'') nonce = Inr (tok, claims)"
    and "GetUser (core app) 0 '''' (OIDCClaim.Email claims)
           (emit (Exchange_OIDCToken (QueryParam c ''code'') nonce) w) = (Some (Inl err), w2)"
  shows "handleOIDCFinish app c w =
           (let (r, w') = renderLoginPage app c (Some err) w2 in (Some r, w'))"
  using assms by (simp add: handleOIDCFinish_def Let_def)

lemma finish_update_failed:
  assumes "Cookie c ''nonce'' = Some nonce" "nonce \<noteq> ''''"
    and "ExchangeOIDCToken app (QueryParam c ''code'') nonce = Inr (tok, claims)"
    and "GetUser (core app) 0 '''' (OIDCClaim.Email claims)
           (emit (Exchange_OIDCToken (QueryParam c ''code'') nonce) w) = (Some (Inr user), w2)"
    and "UpdateUserLogin (core app) (User.ID user) (Picture claims) w2 = (Some err, w3)"
  shows "handleOIDCFinish app c w =
           (let (r, w') = renderLoginPage app c (Some err) w3 in (Some r, w'))"
  using assms by (simp add: handleOIDCFinish_def Let_def)

lemma finish_session_failed:
  assumes "Cookie c ''nonce'' = Some nonce" "nonce \<noteq> ''''"
    and "ExchangeOIDCToken app (QueryParam c ''code'') nonce = Inr (tok, claims)"
    and "GetUser (core app) 0 '''' (OIDCClaim.Email claims)
           (emit (Exchange_OIDCToken (QueryParam c ''code'') nonce) w) = (Some (Inr user), w2)"
    and "UpdateUserLogin (core app) (User.ID user) (Picture claims) w2 = (None, w3)"
    and "SetSession app user tok = Some err"
  shows "handleOIDCFinish app c w =
           (let (r, w') = renderLoginPage app c (Some err) (emit (Set_Session (User.ID user) tok) w3)
            in (Some r, w'))"
  using assms by (simp add: handleOIDCFinish_def Let_def)

lemma finish_success:
  assumes "Cookie c ''nonce'' = Some nonce" "nonce \<noteq> ''''"
    and "ExchangeOIDCToken app (QueryParam c ''code'') nonce = Inr (tok, claims)"
    and "GetUser (core app) 0 '''' (OIDCClaim.Email claims)
           (emit (Exchange_OIDCToken (QueryParam c ''code'') nonce) w) = (Some (Inr user), w2)"
    and "UpdateUserLogin (core app) (User.ID user) (Picture claims) w2 = (None, w3)"
    and "SetSession app user tok = None"
  shows "handleOIDCFinish app c w =
           (Some (Inr (Redirect 302 (SanitizeURI app (QueryParam c ''state'')))),
            emit (Set_Session (User.ID user) tok) w3)"
  using assms by (simp add: handleOIDCFinish_def Let_def)

lemma GetUser_not_None: "GetUser c uid username email w \<noteq> (None, w')"
proof (cases "getUsers c uid username (ToLower c email) w")
  case (Pair r w1)
  show ?thesis
  proof (cases r)
    case (Inl err)
    with Pair show ?thesis by (simp add: GetUser_def)
  next
    case (Inr out)
    with Pair have "out \<noteq> []" by (auto dest: getUsers_nonempty)
    with Pair Inr show ?thesis by (simp add: GetUser_def split: list.splits)
  qed
qed

lemma GetUser_lookup_miss:
  assumes "q_GetUsers c uid username (ToLower c email) = Inr []"
  shows "fst (GetUser c uid username email w) =
           Some (Inl (HTTPError 500 (Core.Ts c ''globals.messages.errorFetching''
              [''name'', ''{globals.terms.users}'', ''error'',
               pqErrMsg c (OtherError ''user not found'')])))"
  using assms by (simp add: GetUser_def getUsers_def Let_def)

lemma finish_funnel:
  assumes "(Cookie c ''nonce'' = None \<or> Cookie c ''nonce'' = Some '''') \<and>
             err = HTTPError 401 (App.T app ''users.invalidRequest'')
           \<or> (\<exists>nonce. Cookie c ''nonce'' = Some nonce \<and> nonce \<noteq> '''' \<and>
                 (ExchangeOIDCToken app (QueryParam c ''code'') nonce = Inl err
                  \<or> (\<exists>tok claims w2.
                        ExchangeOIDCToken app (QueryParam c ''code'') nonce = Inr (tok, claims) \<and>
                        (GetUser (core app) 0 '''' (OIDCClaim.Email claims)
                           (emit (Exchange_OIDCToken (QueryParam c ''code'') nonce) w) = (Some (Inl err), w2)
                         \<or> (\<exists>user w3.
                               GetUser (core app) 0 '''' (OIDCClaim.Email claims)
                                 (emit (Exchange_OIDCToken (QueryParam c ''code'') nonce) w) = (Some (Inr user), w2) \<and>
                               (UpdateUserLogin (core app) (User.ID user) (Picture claims) w2 = (Some err, w3)
                                \<or> UpdateUserLogin (core app) (User.ID user) (Picture claims) w2 = (None, w3) \<and>
                                   SetSession app user tok = Some err))))))"
  shows "\<exists>wx. handleOIDCFinish app c w =
                 (let (r, w') = renderLoginPage app c (Some err) wx in (Some r, w'))"
  using assms
proof (elim disjE exE conjE)
  assume "Cookie c ''nonce'' = None" "err = HTTPError 401 (App.T app ''users.invalidRequest'')"
  then show ?thesis using finish_no_cookie [of c app w] by blast
next
  assume "Cookie c ''nonce'' = Some ''''" "err = HTTPError 401 (App.T app ''users.invalidRequest'')"
  then show ?thesis using finish_no_cookie [of c app w] by blast
next
  fix nonce
  assume "Cookie c ''nonce'' = Some nonce" "nonce \<noteq> ''''"
    "ExchangeOIDCToken app (QueryParam c ''code'') nonce = Inl err"
  then show ?thesis using finish_exchange_failed by blast
next
  fix nonce tok claims w2
  assume "Cookie c ''nonce'' = Some nonce" "nonce \<noteq> ''''"
    "ExchangeOIDCToken app (QueryParam c ''code'') nonce = Inr (tok, claims)"
    "GetUser (core app) 0 '''' (OIDCClaim.Email claims)
       (emit (Exchange_OIDCToken (QueryParam c ''code'') nonce) w) = (Some (Inl err), w2)"
  then show ?thesis using finish_lookup_failed by blast
next
  fix nonce tok claims w2 user w3
  assume "Cookie c ''nonce'' = Some nonce" "nonce \<noteq> ''''"
    "ExchangeOIDCToken app (QueryParam c ''code'') nonce = Inr (tok, claims)"
    "GetUser (core app) 0 '''' (OIDCClaim.Email claims)
       (emit (Exchange_OIDCToken (QueryParam c ''code'') nonce) w) = (Some (Inr user), w2)"
    "UpdateUserLogin (core app) (User.ID user) (Picture claims) w2 = (Some err, w3)"
  then show ?thesis using finish_update_failed by blast
next
  fix nonce tok claims w2 user w3
  assume "Cookie c ''nonce'' = Some nonce" "nonce \<noteq> ''''"
    "ExchangeOIDCToken app (QueryParam c ''code'') nonce = Inr (tok, claims)"
    "GetUser (core app) 0 '''' (OIDCClaim.Email claims)
       (emit (Exchange_OIDCToken (QueryParam c ''code'') nonce) w) = (Some (Inr user), w2)"
    "UpdateUserLogin (core app) (User.ID user) (Picture claims) w2 = (None, w3)"
    "SetSession app user tok = Some err"
  then show ?thesis using finish_session_failed by blast
qed

lemma finish_cases:
  "(\<exists>err wx. handleOIDCFinish app c w =
               (let (r, w') = renderLoginPage app c (Some err) wx in (Some r, w')))
   \<or> (\<exists>nonce tok claims user w2 w3.
         Cookie c ''nonce'' = Some nonce \<and> nonce \<noteq> '''' \<and>
         ExchangeOIDCToken app (QueryParam c ''code'') nonce = Inr (tok, claims) \<and>
         GetUser (core app) 0 '''' (OIDCClaim.Email claims)
           (emit (Exchange_OIDCToken (QueryParam c ''code'') nonce) w) = (Some (Inr user), w2) \<and>
         UpdateUserLogin (core app) (User.ID user) (Picture claims) w2 = (None, w3) \<and>
         SetSession app user tok = None \<and>
         handleOIDCFinish app c w =
           (Some (Inr (Redirect 302 (SanitizeURI app (QueryParam c ''state'')))),
            emit (Set_Session (User.ID user) tok) w3))"
proof (cases "Cookie c ''nonce'' = None \<or> Cookie c ''nonce'' = Some ''''")
  case True
  then show ?thesis
    using finish_no_cookie [of c app w] by blast
next
  case False
  then obtain nonce where nonce: "Cookie c ''nonce'' = Some nonce" "nonce \<noteq> ''''"
    by auto
  let ?w1 = "emit (Exchange_OIDCToken (QueryParam c ''code'') nonce) w"
  show ?thesis
  proof (cases "ExchangeOIDCToken app (QueryParam c ''code'') nonce")
    case (Inl err)
    show ?thesis
      using finish_exchange_failed [OF nonce Inl] by blast
  next
    case (Inr pair)
    then obtain tok claims where ex: "ExchangeOIDCToken app (QueryParam c ''code'') nonce = Inr (tok, claims)"
      by (cases pair) simp
    obtain g w2 where g: "GetUser (core app) 0 '''' (OIDCClaim.Email claims) ?w1 = (Some g, w2)"
      using GetUser_not_None [of "core app" 0 "''''" "OIDCClaim.Email claims" ?w1]
      by (cases "GetUser (core app) 0 '''' (OIDCClaim.Email claims) ?w1") auto
    show ?thesis
    proof (cases g)
      case (Inl err)
      show ?thesis
        using finish_lookup_failed [OF nonce ex g [unfolded Inl]] by blast
    next
      case (Inr user)
      note gu = g [unfolded Inr]
      obtain r w3 where up: "UpdateUserLogin (core app) (User.ID user) (Picture claims) w2 = (r, w3)"
        by (cases "UpdateUserLogin (core app) (User.ID user) (Picture claims) w2")
      show ?thesis
      proof (cases r)
        case (Some err)
        show ?thesis
          using finish_update_failed [OF nonce ex gu up [unfolded Some]] by blast
      next
        case None
        note upn = up [unfolded None]
        show ?thesis
        proof (cases "SetSession app user tok")
          case (Some err)
          show ?thesis
            using finish_session_failed [OF nonce ex gu upn Some] by blast
        next
          case None
          show ?thesis
            using finish_success [OF nonce ex gu upn None] nonce ex gu upn None by blast
        qed
      qed
    qed
  qed
qed

lemma finish_not_None: "handleOIDCFinish app c w \<noteq> (None, w')"
  using finish_cases [of app c w] by (auto simp: case_prod_beta)

lemma finish_Redirect:
  assumes "handleOIDCFinish app c w = (Some (Inr (Redirect code url)), w')"
  shows "\<exists>nonce tok claims user w2 w3.
         Cookie c ''nonce'' = Some nonce \<and> nonce \<noteq> '''' \<and>
         ExchangeOIDCToken app (QueryParam c ''code'') nonce = Inr (tok, claims) \<and>
         GetUser (core app) 0 '''' (OIDCClaim.Email claims)
           (emit (Exchange_OIDCToken (QueryParam c ''code'') nonce) w) = (Some (Inr user), w2) \<and>
         UpdateUserLogin (core app) (User.ID user) (Picture claims) w2 = (None, w3) \<and>
         SetSession app user tok = None \<and>
         handleOIDCFinish app c w =
           (Some (Inr (Redirect 302 (SanitizeURI app (QueryParam c ''state'')))),
            emit (Set_Session (User.ID user) tok) w3)"
proof -
  have "\<not> (\<exists>err wx. handleOIDCFinish app c w =
               (let (r, w') = renderLoginPage app c (Some err) wx in (Some r, w')))"
  proof
    assume "\<exists>err wx. handleOIDCFinish app c w =
               (let (r, w') = renderLoginPage app c (Some err) wx in (Some r, w'))"
    then obtain err wx where "handleOIDCFinish app c w =
               (let (r, w') = renderLoginPage app c (Some err) wx in (Some r, w'))"
      by blast
    then have "fst (renderLoginPage app c (Some err) wx) = Inr (Redirect code url)"
      using assms by (simp add: case_prod_beta)
    then show False
      using renderLoginPage_not_Redirect by blast
  qed
  then show ?thesis
    using finish_cases [of app c w] by blast
qed

text \<open>
  Claim C5, as amended. Every failure of the completion handler - a missing or
  empty nonce cookie (the Unauthorized error), a failed token exchange, a failed
  lookup of the user (a lookup miss on the verified email is one), a failed update
  of the last login, a failed creation of the session - goes to the re-rendering
  of the login page with that error. When the page's nonce is generated and the
  page is written, the response is the login page (200, template admin-login)
  carrying that error's message; when the nonce cannot be generated, it is the
  400 internal error instead; when writing the page fails, it is that error. The
  handler never panics, and it redirects only on the path where every step
  succeeds, with 302 to the sanitized state URI.
\<close>

theorem handleOIDCFinish_failures_render_login_page:
  "(\<forall>err.
      ((Cookie c ''nonce'' = None \<or> Cookie c ''nonce'' = Some '''') \<and>
         err = HTTPError 401 (App.T app ''users.invalidRequest'')
       \<or> (\<exists>nonce. Cookie c ''nonce'' = Some nonce \<and> nonce \<noteq> '''' \<and>
             (ExchangeOIDCToken app (QueryParam c ''code'') nonce = Inl err
              \<or> (\<exists>tok claims w2.
                    ExchangeOIDCToken app (QueryParam c ''code'') nonce = Inr (tok, claims) \<and>
                    (GetUser (core app) 0 '''' (OIDCClaim.Email claims)
                       (emit (Exchange_OIDCToken (QueryParam c ''code'') nonce) w) = (Some (Inl err), w2)
                     \<or> (\<exists>user w3.
                           GetUser (core app) 0 '''' (OIDCClaim.Email claims)
                             (emit (Exchange_OIDCToken (QueryParam c ''code'') nonce) w) = (Some (Inr user), w2) \<and>
                           (UpdateUserLogin (core app) (User.ID user) (Picture claims) w2 = (Some err, w3)
                            \<or> UpdateUserLogin (core app) (User.ID user) (Picture claims) w2 = (None, w3) \<and>
                               SetSession app user tok = Some err)))))))
      \<longrightarrow>
        (\<forall>bytes. rand_Read app 16 = Inr bytes \<longrightarrow>
           (\<exists>tpl. Error tpl = tpl_Error err \<and>
              (Render c 200 ''admin-login'' tpl = None \<longrightarrow>
                 fst (handleOIDCFinish app c w) = Some (Inr (Rendered 200 ''admin-login'' tpl))) \<and>
              (\<forall>re. Render c 200 ''admin-login'' tpl = Some re \<longrightarrow>
                 fst (handleOIDCFinish app c w) = Some (Inl re))))
        \<and> (\<forall>e. rand_Read app 16 = Inl e \<longrightarrow>
              fst (handleOIDCFinish app c w) =
                Some (Inl (HTTPError 400 (App.T app ''globals.messages.internalError'')))))
   \<and> (\<forall>email wx.
         q_GetUsers (core app) 0 '''' (ToLower (core app) email) = Inr [] \<longrightarrow>
         fst (GetUser (core app) 0 '''' email wx) =
           Some (Inl (HTTPError 500 (Core.Ts (core app) ''globals.messages.errorFetching''
              [''name'', ''{globals.terms.users}'', ''error'',
               pqErrMsg (core app) (OtherError ''user not found'')]))))
   \<and> (\<forall>w'. handleOIDCFinish app c w \<noteq> (None, w'))
   \<and> (\<forall>code url w'. handleOIDCFinish app c w = (Some (Inr (Redirect code url)), w') \<longrightarrow>
          code = 302 \<and> url = SanitizeURI app (QueryParam c ''state'') \<and>
          (\<exists>nonce tok claims user w2 w3.
             Cookie c ''nonce'' = Some nonce \<and> nonce \<noteq> '''' \<and>
             ExchangeOIDCToken app (QueryParam c ''code'') nonce = Inr (tok, claims) \<and>
             GetUser (core app) 0 '''' (OIDCClaim.Email claims)
               (emit (Exchange_OIDCToken (QueryParam c ''code'') nonce) w) = (Some (Inr user), w2) \<and>
             UpdateUserLogin (core app) (User.ID user) (Picture claims) w2 = (None, w3) \<and>
             SetSession app user tok = None))
   \<and> (\<forall>nonce tok claims user w2 w3.
         Cookie c ''nonce'' = Some nonce \<and> nonce \<noteq> '''' \<and>
         ExchangeOIDCToken app (QueryParam c ''code'') nonce = Inr (tok, claims) \<and>
         GetUser (core app) 0 '''' (OIDCClaim.Email claims)
           (emit (Exchange_OIDCToken (QueryParam c ''code'') nonce) w) = (Some (Inr user), w2) \<and>
         UpdateUserLogin (core app) (User.ID user) (Picture claims) w2 = (None, w3) \<and>
         SetSession app user tok = None \<longrightarrow>
         handleOIDCFinish app c w =
           (Some (Inr (Redirect 302 (SanitizeURI app (QueryParam c ''state'')))),
            emit (Set_Session (User.ID user) tok) w3))"
proof (intro conjI allI impI)
  fix err bytes
  assume fails: "(Cookie c ''nonce'' = None \<or> Cookie c ''nonce'' = Some '''') \<and>
         err = HTTPError 401 (App.T app ''users.invalidRequest'')
       \<or> (\<exists>nonce. Cookie c ''nonce'' = Some nonce \<and> nonce \<noteq> '''' \<and>
             (ExchangeOIDCToken app (QueryParam c ''code'') nonce = Inl err
              \<or> (\<exists>tok claims w2.
                    ExchangeOIDCToken app (QueryParam c ''code'') nonce = Inr (tok, claims) \<and>
                    (GetUser (core app) 0 '''' (OIDCClaim.Email claims)
                       (emit (Exchange_OIDCToken (QueryParam c ''code'') nonce) w) = (Some (Inl err), w2)
                     \<or> (\<exists>user w3.
                           GetUser (core app) 0 '''' (OIDCClaim.Email claims)
                             (emit (Exchange_OIDCToken (QueryParam c ''code'') nonce) w) = (Some (Inr user), w2) \<and>
                           (UpdateUserLogin (core app) (User.ID user) (Picture claims) w2 = (Some err, w3)
                            \<or> UpdateUserLogin (core app) (User.ID user) (Picture claims) w2 = (None, w3) \<and>
                               SetSession app user tok = Some err))))))"
    and rd: "rand_Read app 16 = Inr bytes"
  from finish_funnel [OF fails] obtain wx where
    "handleOIDCFinish app c w = (let (r, w') = renderLoginPage app c (Some err) wx in (Some r, w'))"
    by blast
  then have f: "fst (handleOIDCFinish app c w) = Some (fst (renderLoginPage app c (Some err) wx))"
    by (rule fst_after_page)
  from renderLoginPage_nonce_ok [OF rd, of err c wx]
  show "\<exists>tpl. Error tpl = tpl_Error err \<and>
              (Render c 200 ''admin-login'' tpl = None \<longrightarrow>
                 fst (handleOIDCFinish app c w) = Some (Inr (Rendered 200 ''admin-login'' tpl))) \<and>
              (\<forall>re. Render c 200 ''admin-login'' tpl = Some re \<longrightarrow>
                 fst (handleOIDCFinish app c w) = Some (Inl re))"
    by (simp add: f)
next
  fix err e
  assume fails: "(Cookie c ''nonce'' = None \<or> Cookie c ''nonce'' = Some '''') \<and>
         err = HTTPError 401 (App.T app ''users.invalidRequest'')
       \<or> (\<exists>nonce. Cookie c ''nonce'' = Some nonce \<and> nonce \<noteq> '''' \<and>
             (ExchangeOIDCToken app (QueryParam c ''code'') nonce = Inl err
              \<or> (\<exists>tok claims w2.
                    ExchangeOIDCToken app (QueryParam c ''code'') nonce = Inr (tok, claims) \<and>
                    (GetUser (core app) 0 '''' (OIDCClaim.Email claims)
                       (emit (Exchange_OIDCToken (QueryParam c ''code'') nonce) w) = (Some (Inl err), w2)
                     \<or> (\<exists>user w3.
                           GetUser (core app) 0 '''' (OIDCClaim.Email claims)
                             (emit (Exchange_OIDCToken (QueryParam c ''code'') nonce) w) = (Some (Inr user), w2) \<and>
                           (UpdateUserLogin (core app) (User.ID user) (Picture claims) w2 = (Some err, w3)
                            \<or> UpdateUserLogin (core app) (User.ID user) (Picture claims) w2 = (None, w3) \<and>
                               SetSession app user tok = Some err))))))"
    and rd: "rand_Read app 16 = Inl e"
  from finish_funnel [OF fails] obtain wx where
    "handleOIDCFinish app c w = (let (r, w') = renderLoginPage app c (Some err) wx in (Some r, w'))"
    by blast
  then have "fst (handleOIDCFinish app c w) = Some (fst (renderLoginPage app c (Some err) wx))"
    by (rule fst_after_page)
  then show "fst (handleOIDCFinish app c w) =
                Some (Inl (HTTPError 400 (App.T app ''globals.messages.internalError'')))"
    by (simp add: renderLoginPage_no_nonce [OF rd])
next
  fix email wx
  assume "q_GetUsers (core app) 0 '''' (ToLower (core app) email) = Inr []"
  then show "fst (GetUser (core app) 0 '''' email wx) =
           Some (Inl (HTTPError 500 (Core.Ts (core app) ''globals.messages.errorFetching''
              [''name'', ''{globals.terms.users}'', ''error'',
               pqErrMsg (core app) (OtherError ''user not found'')])))"
    by (rule GetUser_lookup_miss)
next
  fix w'
  show "handleOIDCFinish app c w \<noteq> (None, w')"
    by (rule finish_not_None)
next
  fix code url w'
  assume r: "handleOIDCFinish app c w = (Some (Inr (Redirect code url)), w')"
  note ok = finish_Redirect [OF r]
  from ok r show "code = 302" by auto
  from ok r show "url = SanitizeURI app (QueryParam c ''state'')" by auto
  from ok show "\<exists>nonce tok claims user w2 w3.
             Cookie c ''nonce'' = Some nonce \<and> nonce \<noteq> '''' \<and>
             ExchangeOIDCToken app (QueryParam c ''code'') nonce = Inr (tok, claims) \<and>
             GetUser (core app) 0 '''' (OIDCClaim.Email claims)
               (emit (Exchange_OIDCToken (QueryParam c ''code'') nonce) w) = (Some (Inr user), w2) \<and>
             UpdateUserLogin (core app) (User.ID user) (Picture claims) w2 = (None, w3) \<and>
             SetSession app user tok = None"
    by blast
next
  fix nonce tok claims user w2 w3
  assume "Cookie c ''nonce'' = Some nonce \<and> nonce \<noteq> '''' \<and>
         ExchangeOIDCToken app (QueryParam c ''code'') nonce = Inr (tok, claims) \<and>
         GetUser (core app) 0 '''' (OIDCClaim.Email claims)
           (emit (Exchange_OIDCToken (QueryParam c ''code'') nonce) w) = (Some (Inr user), w2) \<and>
         UpdateUserLogin (core app) (User.ID user) (Picture claims) w2 = (None, w3) \<and>
         SetSession app user tok = None"
  then show "handleOIDCFinish app c w =
           (Some (Inr (Redirect 302 (SanitizeURI app (QueryParam c ''state'')))),
            emit (Set_Session (User.ID user) tok) w3)"
    using finish_success by blast
qed

lemma callback_fields:
  "Cookie (callback None query) ''nonce'' = None"
  "Cookie (callback (Some v) query) ''nonce'' = Some v"
  "QueryParam (callback nonce query) name = (case map_of query name of None \<Rightarrow> '''' | Some v \<Rightarrow> v)"
  "Render (callback nonce query) code name data = None"
  by (simp_all add: callback_def)

lemma unrendered_fields:
  "Cookie (unrendered c) = Cookie c"
  "QueryParam (unrendered c) = QueryParam c"
  "Render (unrendered c) code name data = Some (OtherError ''write: broken pipe'')"
  by (simp_all add: unrendered_def)

lemma app0_finish_fields:
  "ExchangeOIDCToken app0 ''bad'' nonce = Inl (HTTPError 401 ''exchange failed'')"
  "ExchangeOIDCToken app0 ''good'' nonce =
     Inr (''id-token'', \<lparr>Email = ''Ada@Example.com'', Picture = ''ada.png''\<rparr>)"
  "SanitizeURI app0 ''/lists'' = ''/lists''"
  by (simp_all add: app0_def)

lemma core0_finish_fields:
  "ToLower core0 ''Ada@Example.com'' = ''ada@example.com''"
  "q_UpdateUserLogin core0 uid avatar = None"
  by (simp_all add: core0_def ascii_ToLower_def)

lemma app_no_entropy_fields:
  "rand_Read app_no_entropy 16 = Inl (OtherError ''no entropy'')"
  "App.T app_no_entropy = (\<lambda>key. key)"
  by (simp_all add: app_no_entropy_def app0_fields)

theorem handleOIDCFinish_failures_render_login_page_witness:
  "(\<exists>tpl. fst (handleOIDCFinish app0 (callback None [(''code'', ''good''), (''state'', ''/lists'')]) world0)
       = Some (Inr (Rendered 200 ''admin-login'' tpl)) \<and> Error tpl = ''users.invalidRequest'')
   \<and> (\<exists>tpl. fst (handleOIDCFinish app0 (callback (Some ''n1'') [(''code'', ''bad''), (''state'', ''/lists'')]) world0)
       = Some (Inr (Rendered 200 ''admin-login'' tpl)) \<and> Error tpl = ''exchange failed'')
   \<and> fst (handleOIDCFinish app_no_entropy (callback (Some ''n1'') [(''code'', ''bad''), (''state'', ''/lists'')]) world0)
       = Some (Inl (HTTPError 400 ''globals.messages.internalError''))
   \<and> (\<exists>w'. handleOIDCFinish app0 (callback (Some ''n1'') [(''code'', ''good''), (''state'', ''/lists'')]) world0
       = (Some (Inr (Redirect 302 ''/lists'')), w'))"
proof -
  let ?c1 = "callback None [(''code'', ''good''), (''state'', ''/lists'')]"
  let ?c2 = "callback (Some ''n1'') [(''code'', ''bad''), (''state'', ''/lists'')]"
  let ?c3 = "callback (Some ''n1'') [(''code'', ''good''), (''state'', ''/lists'')]"
  let ?claims = "\<lparr>Email = ''Ada@Example.com'', Picture = ''ada.png''\<rparr>"
  have rd: "rand_Read app0 16 = Inr (replicate 16 0xFF)"
    by (simp add: app0_fields)
  have "\<exists>tpl. Error tpl = tpl_Error (HTTPError 401 ''users.invalidRequest'') \<and>
              (Render ?c1 200 ''admin-login'' tpl = None \<longrightarrow>
                 fst (handleOIDCFinish app0 ?c1 world0) = Some (Inr (Rendered 200 ''admin-login'' tpl))) \<and>
              (\<forall>re. Render ?c1 200 ''admin-login'' tpl = Some re \<longrightarrow>
                 fst (handleOIDCFinish app0 ?c1 world0) = Some (Inl re))"
    by (rule handleOIDCFinish_failures_render_login_page
              [of ?c1 app0 world0, THEN conjunct1, rule_format, THEN conjunct1, rule_format, OF _ rd])
       (rule disjI1, simp add: callback_fields app0_fields)
  then obtain tpl1 where t1:
    "Error tpl1 = tpl_Error (HTTPError 401 ''users.invalidRequest'') \<and>
     (Render ?c1 200 ''admin-login'' tpl1 = None \<longrightarrow>
        fst (handleOIDCFinish app0 ?c1 world0) = Some (Inr (Rendered 200 ''admin-login'' tpl1))) \<and>
     (\<forall>re. Render ?c1 200 ''admin-login'' tpl1 = Some re \<longrightarrow>
        fst (handleOIDCFinish app0 ?c1 world0) = Some (Inl re))" ..
  have a: "\<exists>tpl. fst (handleOIDCFinish app0 ?c1 world0)
       = Some (Inr (Rendered 200 ''admin-login'' tpl)) \<and> Error tpl = ''users.invalidRequest''"
    using t1 by (intro exI [of _ tpl1]) (simp add: callback_fields(4))
  have "\<exists>tpl. Error tpl = tpl_Error (HTTPError 401 ''exchange failed'') \<and>
              (Render ?c2 200 ''admin-login'' tpl = None \<longrightarrow>
                 fst (handleOIDCFinish app0 ?c2 world0) = Some (Inr (Rendered 200 ''admin-login'' tpl))) \<and>
              (\<forall>re. Render ?c2 200 ''admin-login'' tpl = Some re \<longrightarrow>
                 fst (handleOIDCFinish app0 ?c2 world0) = Some (Inl re))"
    by (rule handleOIDCFinish_failures_render_login_page
              [of ?c2 app0 world0, THEN conjunct1, rule_format, THEN conjunct1, rule_format, OF _ rd])
       (rule disjI2, rule exI [of _ "''n1''"], simp add: callback_fields app0_finish_fields)
  then obtain tpl2 where t2:
    "Error tpl2 = tpl_Error (HTTPError 401 ''exchange failed'') \<and>
     (Render ?c2 200 ''admin-login'' tpl2 = None \<longrightarrow>
        fst (handleOIDCFinish app0 ?c2 world0) = Some (Inr (Rendered 200 ''admin-login'' tpl2))) \<and>
     (\<forall>re. Render ?c2 200 ''admin-login'' tpl2 = Some re \<longrightarrow>
        fst (handleOIDCFinish app0 ?c2 world0) = Some (Inl re))" ..
  have b: "\<exists>tpl. fst (handleOIDCFinish app0 ?c2 world0)
       = Some (Inr (Rendered 200 ''admin-login'' tpl)) \<and> Error tpl = ''exchange failed''"
    using t2 by (intro exI [of _ tpl2]) (simp add: callback_fields(4))
  have ex_ne: "ExchangeOIDCToken app_no_entropy = ExchangeOIDCToken app0"
    by (simp add: app_no_entropy_def)
  have "fst (handleOIDCFinish app_no_entropy ?c2 world0) =
          Some (Inl (HTTPError 400 (App.T app_no_entropy ''globals.messages.internalError'')))"
    by (rule handleOIDCFinish_failures_render_login_page
              [of ?c2 app_no_entropy world0, THEN conjunct1, rule_format, THEN conjunct2, rule_format,
               OF _ app_no_entropy_fields(1)])
       (rule disjI2, rule exI [of _ "''n1''"], simp add: callback_fields ex_ne app0_finish_fields)
  then have n: "fst (handleOIDCFinish app_no_entropy ?c2 world0)
       = Some (Inl (HTTPError 400 ''globals.messages.internalError''))"
    by (simp add: app_no_entropy_fields(2))
  let ?w1 = "emit (Exchange_OIDCToken (QueryParam ?c3 ''code'') ''n1'') world0"
  have c3: "Cookie ?c3 ''nonce'' = Some ''n1''" "''n1'' \<noteq> ''''"
    by (simp_all add: callback_fields)
  have e3: "ExchangeOIDCToken app0 (QueryParam ?c3 ''code'') ''n1'' = Inr (''id-token'', ?claims)"
    by (simp add: callback_fields app0_finish_fields)
  have rows: "q_GetUsers core0 0 '''' ''ada@example.com'' = Inr [row_ada]" "[row_ada] \<noteq> []"
    by (simp_all add: core0_fields)
  have email: "ToLower (core app0) (OIDCClaim.Email ?claims) = ''ada@example.com''"
    by (simp add: app0_fields core0_finish_fields)
  obtain user w2 where g3: "GetUser (core app0) 0 '''' (OIDCClaim.Email ?claims) ?w1 = (Some (Inr user), w2)"
    unfolding GetUser_def email
    by (simp add: app0_fields(1) getUsers_one_row [OF rows(1)])
  obtain w3 where u3: "UpdateUserLogin (core app0) (User.ID user) (Picture ?claims) w2 = (None, w3)"
    by (simp add: UpdateUserLogin_def app0_fields(1) core0_finish_fields)
  have s3: "SetSession app0 user ''id-token'' = None"
    by (simp add: app0_fields)
  have "handleOIDCFinish app0 ?c3 world0 =
          (Some (Inr (Redirect 302 (SanitizeURI app0 (QueryParam ?c3 ''state'')))),
           emit (Set_Session (User.ID user) ''id-token'') w3)"
    by (rule handleOIDCFinish_failures_render_login_page
              [of ?c3 app0 world0, THEN conjunct2, THEN conjunct2, THEN conjunct2, THEN conjunct2,
               rule_format])
       (rule conjI [OF c3(1) conjI [OF c3(2) conjI [OF e3 conjI [OF g3 conjI [OF u3 s3]]]]])
  then have c: "\<exists>w'. handleOIDCFinish app0 ?c3 world0 = (Some (Inr (Redirect 302 ''/lists'')), w')"
    by (simp add: callback_fields app0_finish_fields)
  from a b n c show ?thesis by (intro conjI)
qed

text \<open>
  Claim C5 as stated fails twice, each time on a request with no nonce cookie.
  When the nonce for the page cannot be generated, the handler answers with the
  bare 400 error of \<open>renderLoginPage\<close>; when the page cannot be written, it returns
  the error of \<open>c.Render\<close>. Neither is the login page carrying the Unauthorized
  message.
\<close>

theorem handleOIDCFinish_no_page_counterexample:
  "Cookie (callback None [(''code'', ''good''), (''state'', ''/lists'')]) ''nonce'' = None
   \<and> handleOIDCFinish app_no_entropy (callback None [(''code'', ''good''), (''state'', ''/lists'')]) world0
       = (Some (Inl (HTTPError 400 ''globals.messages.internalError'')),
          \<lparr>clock = 0, trace = [Printf ''error generating OIDC nonce: %v'' [AErr (OtherError ''no entropy'')]]\<rparr>)
   \<and> Cookie (unrendered (callback None [(''code'', ''good''), (''state'', ''/lists'')])) ''nonce'' = None
   \<and> fst (handleOIDCFinish app0 (unrendered (callback None [(''code'', ''good''), (''state'', ''/lists'')])) world0)
       = Some (Inl (OtherError ''write: broken pipe''))"
proof -
  let ?c = "callback None [(''code'', ''good''), (''state'', ''/lists'')]"
  have nc: "Cookie ?c ''nonce'' = None"
    by (simp add: callback_fields)
  have "handleOIDCFinish app_no_entropy ?c world0 =
          (let (r, w') = renderLoginPage app_no_entropy ?c
                           (Some (HTTPError 401 (App.T app_no_entropy ''users.invalidRequest''))) world0
           in (Some r, w'))"
    using nc by (simp add: finish_no_cookie)
  then have first: "handleOIDCFinish app_no_entropy ?c world0
       = (Some (Inl (HTTPError 400 ''globals.messages.internalError'')),
          \<lparr>clock = 0, trace = [Printf ''error generating OIDC nonce: %v'' [AErr (OtherError ''no entropy'')]]\<rparr>)"
    by (simp add: renderLoginPage_no_nonce [OF app_no_entropy_fields(1)] app_no_entropy_fields(2)
          emit_def world0_def)
  have nu: "Cookie (unrendered ?c) ''nonce'' = None"
    by (simp add: unrendered_fields nc)
  have rd: "rand_Read app0 16 = Inr (replicate 16 0xFF)"
    by (simp add: app0_fields)
  have "handleOIDCFinish app0 (unrendered ?c) world0 =
          (let (r, w') = renderLoginPage app0 (unrendered ?c)
                           (Some (HTTPError 401 (App.T app0 ''users.invalidRequest''))) world0
           in (Some r, w'))"
    using nu by (simp add: finish_no_cookie)
  then have "fst (handleOIDCFinish app0 (unrendered ?c) world0) =
          Some (fst (renderLoginPage app0 (unrendered ?c)
                       (Some (HTTPError 401 (App.T app0 ''users.invalidRequest''))) world0))"
    by (rule fst_after_page)
  moreover have "fst (renderLoginPage app0 (unrendered ?c)
               (Some (HTTPError 401 (App.T app0 ''users.invalidRequest''))) world0)
          = Inl (OtherError ''write: broken pipe'')"
  proof -
    from renderLoginPage_nonce_ok [OF rd, of "HTTPError 401 (App.T app0 ''users.invalidRequest'')" "unrendered ?c" world0]
    obtain tpl where t:
      "Error tpl = tpl_Error (HTTPError 401 (App.T app0 ''users.invalidRequest'')) \<and>
       (Render (unrendered ?c) 200 ''admin-login'' tpl = None \<longrightarrow>
          fst (renderLoginPage app0 (unrendered ?c)
                 (Some (HTTPError 401 (App.T app0 ''users.invalidRequest''))) world0)
            = Inr (Rendered 200 ''admin-login'' tpl)) \<and>
       (\<forall>re. Render (unrendered ?c) 200 ''admin-login'' tpl = Some re \<longrightarrow>
          fst (renderLoginPage app0 (unrendered ?c)
                 (Some (HTTPError 401 (App.T app0 ''users.invalidRequest''))) world0)
            = Inl re)" ..
    then show ?thesis
      by (simp add: unrendered_fields(3))
  qed
  ultimately have second: "fst (handleOIDCFinish app0 (unrendered ?c) world0)
       = Some (Inl (OtherError ''write: broken pipe''))"
    by simp
  from nc first nu second show ?thesis by (intro conjI)
qed

end
